theory Spec2Isabelle
  imports Complex_Main
begin

section \<open>Python values used by the metrics engine\<close>

text \<open>
  The sources are \<^verbatim>\<open>sequence_tagger_model.py\<close> (metrics per token and per
  epoch, layer metrics of the early-exit tagger) and
  \<^verbatim>\<open>pipeline_sample_metrics_token_categories.py\<close> (category test, mask and
  relabel steps). Exceptions of the Python code are values of \<open>error\<close>.
\<close>

datatype error = IndexError | KeyError | ValueError | MetricUnset | FileMissing

text \<open>
  Numbers of numpy and torch are modelled by the reals they denote; rounding is not
  modelled. The special values are modelled where the code can produce them:
  \<^verbatim>\<open>np.log\<close> of zero or of a negative number, \<^verbatim>\<open>np.sqrt\<close> of a
  negative number and a division by zero.
\<close>

datatype npfloat = Finite real | PosInf | NegInf | NaN

definition np_log :: "real \<Rightarrow> npfloat" where
  "np_log x = (if 0 < x then Finite (ln x) else if x = 0 then NegInf else NaN)"

definition np_sqrt :: "real \<Rightarrow> npfloat" where
  "np_sqrt x = (if x < 0 then NaN else Finite (sqrt x))"

definition np_divide :: "real \<Rightarrow> real \<Rightarrow> npfloat" where
  "np_divide a b =
     (if b \<noteq> 0 then Finite (a / b)
      else if a = 0 then NaN else if 0 < a then PosInf else NegInf)"

text \<open>The largest finite single-precision value, which \<^verbatim>\<open>nan_to_num\<close> puts in
  the place of an infinity of a float32 array (the softmax scores are float32).\<close>

definition float32_max :: real where
  "float32_max = (2 - 1 / 2 ^ 23) * 2 ^ 127"

definition nan_to_num :: "npfloat \<Rightarrow> real" where
  "nan_to_num v =
     (case v of Finite x \<Rightarrow> x | NaN \<Rightarrow> 0 | PosInf \<Rightarrow> float32_max | NegInf \<Rightarrow> - float32_max)"


section \<open>Strings\<close>

text \<open>\<^verbatim>\<open>s.endswith(suf)\<close>.\<close>

definition endswith :: "string \<Rightarrow> string \<Rightarrow> bool" where
  "endswith s suf = (length suf \<le> length s \<and> drop (length s - length suf) s = suf)"

text \<open>\<^verbatim>\<open>s.split(c)\<close> for a separator of one character: the pieces between the
  separators, empty pieces included; the empty string gives one empty piece.\<close>

fun split_chr :: "char \<Rightarrow> string \<Rightarrow> string list" where
  "split_chr c [] = [[]]"
| "split_chr c (x # xs) =
     (if x = c then [] # split_chr c xs
      else (case split_chr c xs of [] \<Rightarrow> [[x]] | w # ws \<Rightarrow> (x # w) # ws))"

text \<open>\<^verbatim>\<open>str(int(item))\<close> for a non-negative integer: its decimal digits.\<close>

definition digit_chr :: "nat \<Rightarrow> char" where
  "digit_chr d = ''0123456789'' ! d"

fun str_nat :: "nat \<Rightarrow> string" where
  "str_nat n = (if n < 10 then [digit_chr n] else str_nat (n div 10) @ [digit_chr (n mod 10)])"

declare str_nat.simps [simp del]


section \<open>Memorization and forgetting (MILD)\<close>

text \<open>\<^verbatim>\<open>calculate_mild_f\<close> and \<^verbatim>\<open>calculate_mild_m\<close>: the flags are joined into
  a string of digits, the string is split on \<open>0\<close> (or \<open>1\<close>), the empty pieces are dropped and
  the lengths of the others are added up.\<close>

definition calculate_mild_f :: "nat list \<Rightarrow> nat" where
  "calculate_mild_f prediction_correct_flags =
     (let flags_string = concat (map str_nat prediction_correct_flags);
          forgetting_list = filter (\<lambda>item. item \<noteq> []) (split_chr CHR ''0'' flags_string)
      in if length forgetting_list \<noteq> 0 then length (concat forgetting_list) else 0)"

definition calculate_mild_m :: "nat list \<Rightarrow> nat" where
  "calculate_mild_m prediction_correct_flags =
     (let flags_string = concat (map str_nat prediction_correct_flags);
          memorization_list = filter (\<lambda>item. item \<noteq> []) (split_chr CHR ''1'' flags_string)
      in if length memorization_list \<noteq> 0 then length (concat memorization_list) else 0)"


section \<open>The history of a token and its initialization\<close>

text \<open>The history variables that \<^verbatim>\<open>_init_metrics_logging\<close> sets on every token.
  The counters start at zero and only grow, so they are natural numbers;
  \<open>last_prediction\<close> starts at \<open>-1\<close>.\<close>

record history =
  last_prediction :: int
  last_confidence_sum :: real
  last_sq_difference_sum :: real
  last_correctness_sum :: nat
  last_iteration :: nat
  total_epochs :: nat
  hist_prediction :: "nat list"
  hist_MILD :: "nat list"

definition init_metrics :: "nat \<Rightarrow> history" where
  "init_metrics tagset_size =
     \<lparr> last_prediction = - 1,
       last_confidence_sum = 0,
       last_sq_difference_sum = 0,
       last_correctness_sum = 0,
       last_iteration = 0,
       total_epochs = 0,
       hist_prediction = replicate tagset_size 0,
       hist_MILD = [0] \<rparr>"


section \<open>The metrics of one token in one epoch\<close>

record metrics =
  confidence :: real
  variability :: npfloat
  correctness :: real
  msp :: real
  BvSB :: real
  cross_entropy :: real
  entropy :: real
  iter_norm :: real
  pehist :: npfloat
  mild_m :: nat
  mild_f :: nat
  mild :: int

text \<open>
  \<^verbatim>\<open>np.argsort\<close>: the indices in ascending order of their values. The sort of the
  library is not stable, so the order among the indices of equal values is not fixed
  by the values: it is the parameter \<open>tie\<close>, which ranks the indices of a list, and the
  indices of equal values come in ascending order of their rank. Every order that the
  library can return is the order of some \<open>tie\<close>; \<open>by_index\<close> is the one of a stable sort.
\<close>

definition argsort :: "(real list \<Rightarrow> nat \<Rightarrow> nat) \<Rightarrow> real list \<Rightarrow> nat list" where
  "argsort tie xs = sort_key (\<lambda>i. xs ! i) (sort_key (tie xs) [0..<length xs])"

definition by_index :: "real list \<Rightarrow> nat \<Rightarrow> nat" where
  "by_index xs i = i"

text \<open>\<^verbatim>\<open>log_of_frequencies[np.isinf(log_of_frequencies)] = 0\<close>: the logarithm of a
  frequency, zero for the frequency zero.\<close>

definition log_of_frequency :: "real \<Rightarrow> real" where
  "log_of_frequency x = (case np_log x of Finite y \<Rightarrow> y | NaN \<Rightarrow> 0 | PosInf \<Rightarrow> 0 | NegInf \<Rightarrow> 0)"

text \<open>
  The body of the loop of \<^verbatim>\<open>_calculate_metrics\<close> for one token: \<open>softmax_token\<close> is
  the row of the softmax of the scores for the token (computed by the tensor library),
  \<open>gold_label\<close> the index of the observed label, \<open>h\<close> the history read from the token and
  \<open>max_certainty\<close> the constant of the tagger (and \<open>tie\<close> the order of \<^verbatim>\<open>np.argsort\<close>
  among equal values). The result is the metrics of the epoch
  and the updated history. Reading a list out of its range raises \<open>IndexError\<close>.
\<close>

definition calculate_metrics_token ::
  "(real list \<Rightarrow> nat \<Rightarrow> nat) \<Rightarrow> real \<Rightarrow> real list \<Rightarrow> nat \<Rightarrow> history \<Rightarrow> error + (metrics \<times> history)" where
  "calculate_metrics_token tie max_certainty softmax_token gold_label h =
     (let top_2_indices_argmax = take 2 (rev (argsort tie softmax_token)) in
      if length top_2_indices_argmax < 2 then Inl IndexError
      else if length softmax_token \<le> gold_label then Inl IndexError
      else
        let prediction = top_2_indices_argmax ! 0;
            total_epochs' = total_epochs h + 1;
            probability_of_predicted_label = softmax_token ! (top_2_indices_argmax ! 0);
            probability_of_second_ranked_prediction = softmax_token ! (top_2_indices_argmax ! 1);
            probability_of_true_label = softmax_token ! gold_label;
            confidence_sum = last_confidence_sum h + probability_of_true_label;
            confidence' = confidence_sum / real total_epochs';
            sq_difference_sum = last_sq_difference_sum h + (probability_of_true_label - confidence')\<^sup>2;
            variability' = np_sqrt (sq_difference_sum / real total_epochs');
            correctness_sum = last_correctness_sum h + (if gold_label = prediction then 1 else 0);
            correctness' = real correctness_sum / real total_epochs';
            prediction_changed = (int prediction \<noteq> last_prediction h);
            last_iteration' = (if prediction_changed then total_epochs' else last_iteration h)
        in
        if length (hist_prediction h) \<le> prediction then Inl IndexError
        else
          let count_predictions_history =
                (hist_prediction h)[prediction := hist_prediction h ! prediction + 1];
              frequencies_prediction_history =
                map (\<lambda>x. real x / real total_epochs') count_predictions_history;
              entropy_prediction_history =
                map (\<lambda>f. f * log_of_frequency f) frequencies_prediction_history;
              pe_hist_entropy = np_divide (- sum_list entropy_prediction_history) max_certainty;
              prediction_correct = (if prediction = gold_label then 1 else 0);
              mild_history_new = hist_MILD h @ [prediction_correct];
              mild_m' = calculate_mild_m mild_history_new;
              mild_f' = calculate_mild_f mild_history_new;
              entropy' = - sum_list (map (\<lambda>p. p * nan_to_num (np_log p)) softmax_token);
              cross_entropy' = - nan_to_num (np_log (softmax_token ! gold_label))
          in Inr
            (\<lparr> confidence = confidence',
               variability = variability',
               correctness = correctness',
               msp = probability_of_predicted_label,
               BvSB = probability_of_predicted_label - probability_of_second_ranked_prediction,
               cross_entropy = cross_entropy',
               entropy = entropy',
               iter_norm = real last_iteration' / real total_epochs',
               pehist = pe_hist_entropy,
               mild_m = mild_m',
               mild_f = mild_f',
               mild = int mild_m' - int mild_f' \<rparr>,
             \<lparr> last_prediction = int prediction,
               last_confidence_sum = confidence_sum,
               last_sq_difference_sum = sq_difference_sum,
               last_correctness_sum = correctness_sum,
               last_iteration = last_iteration',
               total_epochs = total_epochs',
               hist_prediction = count_predictions_history,
               hist_MILD = mild_history_new \<rparr>))"

text \<open>The prediction of the epoch: the index of the largest softmax value.\<close>

definition prediction_of :: "(real list \<Rightarrow> nat \<Rightarrow> nat) \<Rightarrow> real list \<Rightarrow> nat" where
  "prediction_of tie softmax_token = take 2 (rev (argsort tie softmax_token)) ! 0"

text \<open>
  The updates of one token over several epochs: the history written back after an epoch
  is the history read in the next one (\<^verbatim>\<open>_log_metrics\<close> stores the updated history
  on the token, \<^verbatim>\<open>_get_history_metrics_for_batch\<close> reads it back). An epoch is the
  pair of the softmax row and the observed label; the result is the list of the metrics
  logged, one per epoch, and the history stored at the end.
\<close>

fun update_epochs ::
  "(real list \<Rightarrow> nat \<Rightarrow> nat) \<Rightarrow> real \<Rightarrow> (real list \<times> nat) list \<Rightarrow> history \<Rightarrow> error + (metrics list \<times> history)" where
  "update_epochs tie max_certainty [] h = Inr ([], h)"
| "update_epochs tie max_certainty ((softmax_token, gold_label) # es) h =
     (case calculate_metrics_token tie max_certainty softmax_token gold_label h of
        Inl e \<Rightarrow> Inl e
      | Inr (m, h') \<Rightarrow>
          (case update_epochs tie max_certainty es h' of
             Inl e \<Rightarrow> Inl e
           | Inr (ms, h'') \<Rightarrow> Inr (m # ms, h'')))"

definition logged :: "error + (metrics list \<times> history) \<Rightarrow> metrics list" where
  "logged r = (case r of Inl e \<Rightarrow> [] | Inr (ms, h) \<Rightarrow> ms)"

definition stored :: "error + (metrics list \<times> history) \<Rightarrow> history option" where
  "stored r = (case r of Inl e \<Rightarrow> None | Inr (ms, h) \<Rightarrow> Some h)"


section \<open>Layer metrics of the early-exit tagger\<close>

text \<open>\<^verbatim>\<open>torch.argmax\<close> of one row: the first index of the largest value; an empty
  row raises \<open>IndexError\<close>.\<close>

fun argmax_from :: "nat \<Rightarrow> real \<Rightarrow> nat \<Rightarrow> real list \<Rightarrow> nat" where
  "argmax_from best best_value i [] = best"
| "argmax_from best best_value i (x # xs) =
     (if best_value < x then argmax_from i x (Suc i) xs
      else argmax_from best best_value (Suc i) xs)"

definition argmax :: "real list \<Rightarrow> error + nat" where
  "argmax row = (case row of [] \<Rightarrow> Inl IndexError | x # xs \<Rightarrow> Inr (argmax_from 0 x 1 xs))"

fun argmax_rows :: "real list list \<Rightarrow> error + nat list" where
  "argmax_rows [] = Inr []"
| "argmax_rows (row # rows) =
     (case argmax row of
        Inl e \<Rightarrow> Inl e
      | Inr p \<Rightarrow> (case argmax_rows rows of Inl e \<Rightarrow> Inl e | Inr ps \<Rightarrow> Inr (p # ps)))"

text \<open>\<^verbatim>\<open>torch.bincount(pred_labels, minlength=...)\<close>.\<close>

definition bincount :: "nat list \<Rightarrow> nat \<Rightarrow> nat list" where
  "bincount xs minlength =
     map (\<lambda>v. count_list xs v) [0..<max minlength (if xs = [] then 0 else Max (set xs) + 1)]"

text \<open>The entropy of the predictions of the layers. With no layer at all the
  frequencies are \<open>0/0\<close>, and so is the sum over them unless it is empty.\<close>

definition layer_entropy_of :: "nat list \<Rightarrow> nat \<Rightarrow> npfloat" where
  "layer_entropy_of pred_labels n_labels =
     (let frequencies = bincount pred_labels n_labels;
          total = sum_list frequencies
      in if total = 0 \<and> frequencies \<noteq> [] then NaN
         else Finite (- sum_list (map (\<lambda>c. (real c / real total) * nan_to_num (np_log (real c / real total)))
                                   frequencies)))"

record layer_vars =
  pd :: int
  final_pd :: bool
  fl :: nat
  agree_w_last :: nat
  agree_w_correct :: nat

record layer_metrics =
  prediction_depth :: int
  first_layer :: nat
  layer_entropy :: npfloat
  total_agree_w_last :: nat
  total_agree_w_correct :: nat

text \<open>One pass of the body of the loop over the layers, for the layer \<open>i\<close>.\<close>

definition layer_step :: "nat list \<Rightarrow> nat \<Rightarrow> nat \<Rightarrow> layer_vars \<Rightarrow> layer_vars" where
  "layer_step pred_labels gold_label i v =
     (let v1 = (if pred_labels ! i = gold_label
                then v\<lparr>fl := i, agree_w_correct := agree_w_correct v + 1\<rparr> else v)
      in if pred_labels ! i = last pred_labels
         then v1\<lparr>pd := (if final_pd v1 then pd v1 else pd v1 - 1),
                 agree_w_last := agree_w_last v1 + 1\<rparr>
         else v1\<lparr>final_pd := True\<rparr>)"

text \<open>The loop \<^verbatim>\<open>for i in range(self.n_layers - 1, -1, -1)\<close>, over the list of
  its indices.\<close>

fun layer_loop :: "nat list \<Rightarrow> nat \<Rightarrow> nat list \<Rightarrow> layer_vars \<Rightarrow> error + layer_vars" where
  "layer_loop pred_labels gold_label [] v = Inr v"
| "layer_loop pred_labels gold_label (i # is) v =
     (if length pred_labels \<le> i then Inl IndexError
      else layer_loop pred_labels gold_label is (layer_step pred_labels gold_label i v))"

text \<open>\<^verbatim>\<open>_calculate_layer_metrics\<close>: \<open>n_layers\<close> is the number of layers of the
  tagger, \<open>n_labels\<close> the size of its label dictionary, \<open>scores\<close> the softmax rows of
  the layers for one token.\<close>

definition calculate_layer_metrics ::
  "nat \<Rightarrow> nat \<Rightarrow> real list list \<Rightarrow> nat \<Rightarrow> error + layer_metrics" where
  "calculate_layer_metrics n_layers n_labels scores gold_label =
     (case argmax_rows scores of
        Inl e \<Rightarrow> Inl e
      | Inr pred_labels \<Rightarrow>
          (case layer_loop pred_labels gold_label (rev [0..<n_layers])
                  \<lparr> pd = int n_layers, final_pd = False, fl = n_layers,
                    agree_w_last = 0, agree_w_correct = 0 \<rparr> of
             Inl e \<Rightarrow> Inl e
           | Inr v \<Rightarrow>
               Inr \<lparr> prediction_depth = pd v,
                     first_layer = fl v,
                     layer_entropy = layer_entropy_of pred_labels n_labels,
                     total_agree_w_last = agree_w_last v,
                     total_agree_w_correct = agree_w_correct v \<rparr>))"


section \<open>Tokens, sentences and their labels\<close>

text \<open>
  A token carries labels by column and metrics by name; a sentence carries its tokens
  and the labels of its spans. The accessors belong to the tagging library:
  \<^verbatim>\<open>get_label\<close> of a column without label gives the value \<open>O\<close>, \<^verbatim>\<open>set_label\<close>
  replaces the label of the column; a metric that was never set cannot be compared.
\<close>

record token =
  token_text :: string
  labels :: "string \<rightharpoonup> string"
  metric_values :: "string \<rightharpoonup> real"

record span_label =
  column :: string
  first_token :: nat
  end_token :: nat
  span_value :: string
  span_score :: real

record sentence =
  tokens :: "token list"
  span_labels :: "span_label list"

definition get_label :: "token \<Rightarrow> string \<Rightarrow> string" where
  "get_label t c = (case labels t c of None \<Rightarrow> ''O'' | Some v \<Rightarrow> v)"

definition set_label :: "token \<Rightarrow> string \<Rightarrow> string \<Rightarrow> token" where
  "set_label t c v = t\<lparr>labels := (labels t)(c \<mapsto> v)\<rparr>"

definition get_metric :: "token \<Rightarrow> string \<Rightarrow> error + real" where
  "get_metric t m = (case metric_values t m of None \<Rightarrow> Inl MetricUnset | Some v \<Rightarrow> Inr v)"

definition set_metric :: "token \<Rightarrow> string \<Rightarrow> real \<Rightarrow> token" where
  "set_metric t m v = t\<lparr>metric_values := (metric_values t)(m \<mapsto> v)\<rparr>"

text \<open>\<^verbatim>\<open>sent[a:b].set_label(c, value, score)\<close> on the span of the tokens from \<open>a\<close>
  up to \<open>b\<close> (exclusive).\<close>

definition set_span_label :: "sentence \<Rightarrow> string \<Rightarrow> nat \<Rightarrow> nat \<Rightarrow> string \<Rightarrow> real \<Rightarrow> sentence" where
  "set_span_label s c a b v sc =
     s\<lparr>span_labels :=
         filter (\<lambda>l. \<not> (column l = c \<and> first_token l = a \<and> end_token l = b)) (span_labels s)
         @ [\<lparr>column = c, first_token = a, end_token = b, span_value = v, span_score = sc\<rparr>]\<rparr>"

text \<open>The loop that writes the spans decoded from the tags of a sentence into the span
  column \<open>c\<close>; the decoder itself (\<^verbatim>\<open>get_spans_from_bio\<close>) belongs to the tagging
  library and is a parameter of the operations below.\<close>

fun set_spans :: "string \<Rightarrow> (nat list \<times> real \<times> string) list \<Rightarrow> sentence \<Rightarrow> error + sentence" where
  "set_spans c [] s = Inr s"
| "set_spans c ((span_indices, score, label) # ps) s =
     (if span_indices = [] then Inl IndexError
      else if label \<noteq> ''O''
           then set_spans c ps (set_span_label s c (hd span_indices) (last span_indices + 1) label score)
           else set_spans c ps s)"


section \<open>The category test\<close>

definition category_conditions :: "string \<rightharpoonup> (bool \<times> bool)" where
  "category_conditions =
     [''1'' \<mapsto> (True, True), ''2'' \<mapsto> (False, True), ''3'' \<mapsto> (True, False), ''4'' \<mapsto> (False, False)]"

text \<open>
  The condition of the first \<^verbatim>\<open>if\<close> in the loops of \<^verbatim>\<open>relabel_category\<close> and
  \<^verbatim>\<open>mask_category\<close>, on the observed BIO tag and the predicted BIO tag of a token.
  The conjunction is evaluated from the left: the table is looked up only for a tag
  that does not end in \<open>MASK\<close>, and an unknown category raises \<open>KeyError\<close>.
\<close>

definition category_condition :: "string \<Rightarrow> string \<Rightarrow> string \<Rightarrow> error + bool" where
  "category_condition category_id observed predicted =
     (if endswith observed ''MASK'' then Inr False
      else (case category_conditions category_id of
              None \<Rightarrow> Inl KeyError
            | Some (matches, is_O) \<Rightarrow>
                Inr (((observed = predicted) = matches) \<and> ((observed = ''O'') = is_O))))"


section \<open>Relabel and mask\<close>

text \<open>The parameters of \<^verbatim>\<open>relabel_category\<close> and \<^verbatim>\<open>mask_category\<close>, and the
  local variables of their loops (\<open>flag\<close>, \<open>prev\<close> and \<open>previous_changed\<close> start afresh
  in every sentence, the two counters run over the whole dataset).\<close>

record args =
  tag_column :: string
  new_tag_column :: string
  prediction_bio_column :: string
  metric :: string
  threshold :: real
  direction :: string
  category_id :: string

record loop_vars =
  flag :: bool
  prev :: string
  previous_changed :: bool
  tokens_changed :: nat
  tokens_changed_additionally :: nat

definition tag_column_bio :: "args \<Rightarrow> string" where
  "tag_column_bio a = tag_column a @ ''_bio''"

definition new_tag_column_bio :: "args \<Rightarrow> string" where
  "new_tag_column_bio a = new_tag_column a @ ''_bio''"

text \<open>The threshold test: \<open>left\<close> is \<open><\<close>, every other direction is \<open>>\<close>.\<close>

definition passes_threshold :: "args \<Rightarrow> real \<Rightarrow> bool" where
  "passes_threshold a v = (if direction a = ''left'' then v < threshold a else v > threshold a)"

text \<open>The body of the loop of \<^verbatim>\<open>relabel_category\<close> over the tokens of a sentence.\<close>

definition relabel_token :: "args \<Rightarrow> token \<Rightarrow> loop_vars \<Rightarrow> error + (token \<times> loop_vars)" where
  "relabel_token a t v =
     (let observed = get_label t (tag_column_bio a);
          predicted = get_label t (prediction_bio_column a)
      in case category_condition (category_id a) observed predicted of
           Inl e \<Rightarrow> Inl e
         | Inr True \<Rightarrow>
             (case get_metric t (metric a) of
                Inl e \<Rightarrow> Inl e
              | Inr value \<Rightarrow>
                  if passes_threshold a value
                  then Inr (set_label t (new_tag_column_bio a) predicted,
                            v\<lparr>flag := True, tokens_changed := tokens_changed v + 1,
                              prev := predicted, previous_changed := True\<rparr>)
                  else Inr (t, v\<lparr>flag := True\<rparr>))
         | Inr False \<Rightarrow>
             if previous_changed v \<and> prev v \<noteq> ''O''
             then (let parts = split_chr CHR ''-'' (prev v)
                   in if length parts < 2 then Inl IndexError
                      else if endswith observed (parts ! 1) \<and> endswith predicted (parts ! 1)
                           then Inr (set_label t (new_tag_column_bio a) predicted,
                                     v\<lparr>tokens_changed_additionally := tokens_changed_additionally v + 1\<rparr>)
                           else Inr (t, v\<lparr>previous_changed := False\<rparr>))
             else Inr (t, v\<lparr>previous_changed := False\<rparr>))"

fun relabel_tokens :: "args \<Rightarrow> token list \<Rightarrow> loop_vars \<Rightarrow> error + (token list \<times> loop_vars)" where
  "relabel_tokens a [] v = Inr ([], v)"
| "relabel_tokens a (t # ts) v =
     (case relabel_token a t v of
        Inl e \<Rightarrow> Inl e
      | Inr (t', v') \<Rightarrow>
          (case relabel_tokens a ts v' of
             Inl e \<Rightarrow> Inl e
           | Inr (ts', v'') \<Rightarrow> Inr (t' # ts', v'')))"

text \<open>One sentence: the loop over the tokens, then the spans decoded from the new BIO
  tags are written into the new span column.\<close>

definition relabel_sentence ::
  "(string list \<Rightarrow> (nat list \<times> real \<times> string) list) \<Rightarrow> args \<Rightarrow> sentence \<Rightarrow> nat \<times> nat
     \<Rightarrow> error + (sentence \<times> nat \<times> nat)" where
  "relabel_sentence get_spans_from_bio a sent counters =
     (case relabel_tokens a (tokens sent)
             \<lparr> flag = False, prev = ''O'', previous_changed = False,
               tokens_changed = fst counters, tokens_changed_additionally = snd counters \<rparr> of
        Inl e \<Rightarrow> Inl e
      | Inr (ts, v) \<Rightarrow>
          (let bioes_tags = map (\<lambda>t. get_label t (new_tag_column_bio a)) ts
           in case set_spans (new_tag_column a) (get_spans_from_bio bioes_tags) (sent\<lparr>tokens := ts\<rparr>) of
                Inl e \<Rightarrow> Inl e
              | Inr sent' \<Rightarrow> Inr (sent', tokens_changed v, tokens_changed_additionally v)))"

fun relabel_sentences ::
  "(string list \<Rightarrow> (nat list \<times> real \<times> string) list) \<Rightarrow> args \<Rightarrow> sentence list \<Rightarrow> nat \<times> nat
     \<Rightarrow> error + (sentence list \<times> nat \<times> nat)" where
  "relabel_sentences get_spans_from_bio a [] counters = Inr ([], counters)"
| "relabel_sentences get_spans_from_bio a (sent # sents) counters =
     (case relabel_sentence get_spans_from_bio a sent counters of
        Inl e \<Rightarrow> Inl e
      | Inr (sent', counters') \<Rightarrow>
          (case relabel_sentences get_spans_from_bio a sents counters' of
             Inl e \<Rightarrow> Inl e
           | Inr (sents', counters'') \<Rightarrow> Inr (sent' # sents', counters'')))"

text \<open>\<^verbatim>\<open>relabel_category\<close>: the dataset after the pass and the pair
  \<open>(tokens_changed, tokens_changed_additionally)\<close> it returns.\<close>

definition relabel_category ::
  "(string list \<Rightarrow> (nat list \<times> real \<times> string) list) \<Rightarrow> args \<Rightarrow> sentence list
     \<Rightarrow> error + (sentence list \<times> nat \<times> nat)" where
  "relabel_category get_spans_from_bio a dataset = relabel_sentences get_spans_from_bio a dataset (0, 0)"

text \<open>The body of the loop of \<^verbatim>\<open>mask_category\<close> over the tokens of a sentence.\<close>

definition mask_token :: "args \<Rightarrow> token \<Rightarrow> loop_vars \<Rightarrow> error + (token \<times> loop_vars)" where
  "mask_token a t v =
     (let observed = get_label t (tag_column_bio a);
          predicted = get_label t (prediction_bio_column a)
      in case category_condition (category_id a) observed predicted of
           Inl e \<Rightarrow> Inl e
         | Inr True \<Rightarrow>
             (case get_metric t (metric a) of
                Inl e \<Rightarrow> Inl e
              | Inr value \<Rightarrow>
                  if passes_threshold a value
                  then Inr (set_label t (new_tag_column_bio a) ''S-MASK'',
                            v\<lparr>flag := True, tokens_changed := tokens_changed v + 1\<rparr>)
                  else Inr (t, v))
         | Inr False \<Rightarrow> Inr (t, v))"

fun mask_tokens :: "args \<Rightarrow> token list \<Rightarrow> loop_vars \<Rightarrow> error + (token list \<times> loop_vars)" where
  "mask_tokens a [] v = Inr ([], v)"
| "mask_tokens a (t # ts) v =
     (case mask_token a t v of
        Inl e \<Rightarrow> Inl e
      | Inr (t', v') \<Rightarrow>
          (case mask_tokens a ts v' of
             Inl e \<Rightarrow> Inl e
           | Inr (ts', v'') \<Rightarrow> Inr (t' # ts', v'')))"

definition mask_sentence ::
  "(string list \<Rightarrow> (nat list \<times> real \<times> string) list) \<Rightarrow> args \<Rightarrow> sentence \<Rightarrow> nat
     \<Rightarrow> error + (sentence \<times> nat)" where
  "mask_sentence get_spans_from_bio a sent counter =
     (case mask_tokens a (tokens sent)
             \<lparr> flag = False, prev = ''O'', previous_changed = False,
               tokens_changed = counter, tokens_changed_additionally = 0 \<rparr> of
        Inl e \<Rightarrow> Inl e
      | Inr (ts, v) \<Rightarrow>
          (let bioes_tags = map (\<lambda>t. get_label t (new_tag_column_bio a)) ts
           in case set_spans (new_tag_column a) (get_spans_from_bio bioes_tags) (sent\<lparr>tokens := ts\<rparr>) of
                Inl e \<Rightarrow> Inl e
              | Inr sent' \<Rightarrow> Inr (sent', tokens_changed v)))"

fun mask_sentences ::
  "(string list \<Rightarrow> (nat list \<times> real \<times> string) list) \<Rightarrow> args \<Rightarrow> sentence list \<Rightarrow> nat
     \<Rightarrow> error + (sentence list \<times> nat)" where
  "mask_sentences get_spans_from_bio a [] counter = Inr ([], counter)"
| "mask_sentences get_spans_from_bio a (sent # sents) counter =
     (case mask_sentence get_spans_from_bio a sent counter of
        Inl e \<Rightarrow> Inl e
      | Inr (sent', counter') \<Rightarrow>
          (case mask_sentences get_spans_from_bio a sents counter' of
             Inl e \<Rightarrow> Inl e
           | Inr (sents', counter'') \<Rightarrow> Inr (sent' # sents', counter'')))"

text \<open>\<^verbatim>\<open>mask_category\<close> returns \<open>(tokens_changed, 0)\<close>.\<close>

definition mask_category ::
  "(string list \<Rightarrow> (nat list \<times> real \<times> string) list) \<Rightarrow> args \<Rightarrow> sentence list
     \<Rightarrow> error + (sentence list \<times> nat \<times> nat)" where
  "mask_category get_spans_from_bio a dataset =
     (case mask_sentences get_spans_from_bio a dataset 0 of
        Inl e \<Rightarrow> Inl e
      | Inr (dataset', n) \<Rightarrow> Inr (dataset', n, 0))"

text \<open>\<^verbatim>\<open>copy_new_tag_to_original\<close>: every label of the new column is set again, with
  the same value, on the same token or span in the original column (with the score of
  a label set without score, 1).\<close>

definition copy_span_labels :: "string \<Rightarrow> string \<Rightarrow> sentence \<Rightarrow> sentence" where
  "copy_span_labels tag_col new_tag_col sent =
     foldl (\<lambda>s l. set_span_label s tag_col (first_token l) (end_token l) (span_value l) 1)
           sent (filter (\<lambda>l. column l = new_tag_col) (span_labels sent))"

definition copy_new_tag_to_original :: "string \<Rightarrow> string \<Rightarrow> sentence list \<Rightarrow> sentence list" where
  "copy_new_tag_to_original tag_col new_tag_col dataset =
     map (\<lambda>sent. copy_span_labels tag_col new_tag_col
                   (sent\<lparr>tokens := map (\<lambda>t. case labels t new_tag_col of
                                                None \<Rightarrow> t
                                              | Some v \<Rightarrow> set_label t tag_col v) (tokens sent)\<rparr>))
         dataset"


section \<open>The steps of a remediation schedule\<close>

text \<open>
  A line of an epoch log after the header: a blank line (the end of a sentence) or the
  row of a token, of which the code reads the columns \<open>sent_index\<close>, \<open>token_index\<close>,
  \<open>predicted\<close>, \<open>noisy\<close> and the column of the metric (the arguments of \<open>Row\<close>, in
  this order; the last one gives the number under each metric column). The splitting of the text on
  tabs and the reading of the numbers are not modelled: a row holds the values read.
\<close>

datatype log_line =
  Blank
  | Row nat nat string string "string \<rightharpoonup> real"

text \<open>\<^verbatim>\<open>update_dataset_with_epoch_log_info\<close>: \<open>sentence\<close> is the index of the
  sentence being filled, \<open>None\<close> after a blank line; it is looked up from the first row
  after a blank line only.\<close>

fun update_dataset_with_epoch_log_info ::
  "log_line list \<Rightarrow> nat option \<Rightarrow> sentence list \<Rightarrow> string \<Rightarrow> string \<Rightarrow> string
     \<Rightarrow> error + sentence list" where
  "update_dataset_with_epoch_log_info [] sentence dataset metric_name predicted_bio_column tag_bio_col =
     Inr dataset"
| "update_dataset_with_epoch_log_info (Blank # lines) sentence dataset metric_name predicted_bio_column tag_bio_col =
     update_dataset_with_epoch_log_info lines None dataset metric_name predicted_bio_column tag_bio_col"
| "update_dataset_with_epoch_log_info (Row sid tid predicted_bio tag_bio cols # lines) sentence dataset
       metric_name predicted_bio_column tag_bio_col =
     (let sentence_id = (case sentence of None \<Rightarrow> sid | Some i \<Rightarrow> i) in
      if length dataset \<le> sentence_id then Inl IndexError
      else (case cols metric_name of
              None \<Rightarrow> Inl ValueError
            | Some metric_value \<Rightarrow>
                if length (tokens (dataset ! sentence_id)) \<le> tid then Inl IndexError
                else
                  let sent = dataset ! sentence_id;
                      t = tokens sent ! tid;
                      t' = set_metric (set_label (set_label t predicted_bio_column predicted_bio)
                                         tag_bio_col tag_bio) metric_name metric_value;
                      dataset' = dataset[sentence_id := sent\<lparr>tokens := (tokens sent)[tid := t']\<rparr>]
                  in update_dataset_with_epoch_log_info lines (Some sentence_id) dataset'
                       metric_name predicted_bio_column tag_bio_col))"

text \<open>An entry of the schedule, with the names of the locals of \<^verbatim>\<open>run_experiment\<close>
  that hold its fields.\<close>

record category_config =
  modification :: string
  current_epoch :: nat
  current_metric :: string
  current_threshold :: real
  current_direction :: string
  current_id :: string

text \<open>
  The body of the loop of \<^verbatim>\<open>run_experiment\<close> over the schedule: the log of the
  epoch of the step is read into the columns \<open>predicted_bio\<close> and \<open>ner_bio\<close> and into
  the metric, then the step relabels or masks with the tag column \<open>tag_type\<close> and the new
  column \<open>ner_new\<close>. \<open>logs\<close> gives the lines of the log of each epoch that exists. The
  result of a step is the dataset and the counters it reports.
\<close>

definition run_step ::
  "(string list \<Rightarrow> (nat list \<times> real \<times> string) list) \<Rightarrow> string \<Rightarrow> (nat \<rightharpoonup> log_line list)
     \<Rightarrow> category_config \<Rightarrow> sentence list \<Rightarrow> error + (sentence list \<times> nat \<times> nat)" where
  "run_step get_spans_from_bio tag_type logs cfg dataset =
     (case logs (current_epoch cfg) of
        None \<Rightarrow> Inl FileMissing
      | Some lines \<Rightarrow>
          (case update_dataset_with_epoch_log_info lines None dataset (current_metric cfg)
                  ''predicted_bio'' ''ner_bio'' of
             Inl e \<Rightarrow> Inl e
           | Inr dataset' \<Rightarrow>
               (let a = \<lparr> tag_column = tag_type, new_tag_column = ''ner_new'',
                          prediction_bio_column = ''predicted_bio'', metric = current_metric cfg,
                          threshold = current_threshold cfg, direction = current_direction cfg,
                          category_id = current_id cfg \<rparr>
                in if modification cfg = ''relabel'' then relabel_category get_spans_from_bio a dataset'
                   else if modification cfg = ''mask'' then mask_category get_spans_from_bio a dataset'
                   else Inr (dataset', 0, 0))))"

fun run_steps ::
  "(string list \<Rightarrow> (nat list \<times> real \<times> string) list) \<Rightarrow> string \<Rightarrow> (nat \<rightharpoonup> log_line list)
     \<Rightarrow> category_config list \<Rightarrow> sentence list \<Rightarrow> error + (sentence list \<times> (nat \<times> nat) list)" where
  "run_steps get_spans_from_bio tag_type logs [] dataset = Inr (dataset, [])"
| "run_steps get_spans_from_bio tag_type logs (cfg # cfgs) dataset =
     (case run_step get_spans_from_bio tag_type logs cfg dataset of
        Inl e \<Rightarrow> Inl e
      | Inr (dataset', counters) \<Rightarrow>
          (case run_steps get_spans_from_bio tag_type logs cfgs dataset' of
             Inl e \<Rightarrow> Inl e
           | Inr (dataset'', cs) \<Rightarrow> Inr (dataset'', counters # cs)))"

text \<open>The new BIO tags of the tokens of a dataset, sentence by sentence, empty when the
  schedule raised.\<close>

definition new_tags :: "error + (sentence list \<times> 'a) \<Rightarrow> string list list" where
  "new_tags r =
     (case r of
        Inl e \<Rightarrow> []
      | Inr (dataset, x) \<Rightarrow> map (\<lambda>sent. map (\<lambda>t. get_label t ''ner_new_bio'') (tokens sent)) dataset)"

definition reported :: "error + (sentence list \<times> 'a) \<Rightarrow> 'a option" where
  "reported r = (case r of Inl e \<Rightarrow> None | Inr (dataset, x) \<Rightarrow> Some x)"


text \<open>The two numbers that the history of a token keeps about its epochs: the counter
  \<open>total_epochs\<close> and the length of \<open>hist_MILD\<close>.\<close>

definition stored_lengths :: "error + (metrics list \<times> history) \<Rightarrow> (nat \<times> nat) option" where
  "stored_lengths r = map_option (\<lambda>h. (total_epochs h, length (hist_MILD h))) (stored r)"

text \<open>Two tokens that differ at most in the label of the column \<open>c\<close>; the span labels
  of a sentence outside the column \<open>c\<close>; two sentences that differ at most in the new
  BIO tags of their tokens and in the span labels of the new column.\<close>

definition same_but :: "string \<Rightarrow> token \<Rightarrow> token \<Rightarrow> bool" where
  "same_but c t t' = (token_text t' = token_text t \<and> metric_values t' = metric_values t
      \<and> (\<forall>c'. c' \<noteq> c \<longrightarrow> labels t' c' = labels t c'))"

definition spans_but :: "string \<Rightarrow> sentence \<Rightarrow> span_label list" where
  "spans_but c s = filter (\<lambda>l. column l \<noteq> c) (span_labels s)"

definition sentence_frame :: "args \<Rightarrow> sentence \<Rightarrow> sentence \<Rightarrow> bool" where
  "sentence_frame a s s' = (list_all2 (same_but (new_tag_column_bio a)) (tokens s) (tokens s')
      \<and> spans_but (new_tag_column a) s' = spans_but (new_tag_column a) s)"





section \<open>Properties of the history and of the MILD metrics\<close>

lemma str_nat_0: "str_nat 0 = ''0''"
  by (simp add: str_nat.simps digit_chr_def)

lemma str_nat_1: "str_nat (Suc 0) = ''1''"
  by (simp add: str_nat.simps digit_chr_def)

lemma concat_split_chr: "concat (split_chr c s) = filter (\<lambda>x. x \<noteq> c) s"
  by (induction s) (auto split: list.splits)

lemma concat_filter_nonempty: "concat (filter (\<lambda>item. item \<noteq> []) xss) = concat xss"
  by (induction xss) auto

text \<open>Dropping the empty pieces of a split and joining the others leaves the characters
  that are not the separator: \<open>mild_f\<close> counts the characters other than \<open>0\<close>, \<open>mild_m\<close>
  those other than \<open>1\<close>.\<close>

lemma calculate_mild_f_filter:
  "calculate_mild_f fs = length (filter (\<lambda>x. x \<noteq> CHR ''0'') (concat (map str_nat fs)))"
proof -
  have "concat (filter (\<lambda>item. item \<noteq> []) (split_chr CHR ''0'' (concat (map str_nat fs))))
        = filter (\<lambda>x. x \<noteq> CHR ''0'') (concat (map str_nat fs))"
    by (simp add: concat_filter_nonempty concat_split_chr)
  then show ?thesis by (auto simp: calculate_mild_f_def Let_def)
qed

lemma calculate_mild_m_filter:
  "calculate_mild_m fs = length (filter (\<lambda>x. x \<noteq> CHR ''1'') (concat (map str_nat fs)))"
proof -
  have "concat (filter (\<lambda>item. item \<noteq> []) (split_chr CHR ''1'' (concat (map str_nat fs))))
        = filter (\<lambda>x. x \<noteq> CHR ''1'') (concat (map str_nat fs))"
    by (simp add: concat_filter_nonempty concat_split_chr)
  then show ?thesis by (auto simp: calculate_mild_m_def Let_def)
qed

lemma length_argsort: "length (argsort tie xs) = length xs"
  by (simp add: argsort_def)

lemma set_argsort: "set (argsort tie xs) = {0..<length xs}"
  by (simp add: argsort_def)

lemma prediction_of_less: "xs \<noteq> [] \<Longrightarrow> prediction_of tie xs < length xs"
proof -
  assume ne: "xs \<noteq> []"
  then have "rev (argsort tie xs) \<noteq> []" using length_argsort[of tie xs] by auto
  then have "take 2 (rev (argsort tie xs)) ! 0 = hd (rev (argsort tie xs))"
    by (cases "rev (argsort tie xs)") auto
  moreover have "hd (rev (argsort tie xs)) \<in> set (argsort tie xs)"
    using \<open>rev (argsort tie xs) \<noteq> []\<close> hd_in_set[of "rev (argsort tie xs)"] by simp
  ultimately show ?thesis by (simp add: prediction_of_def set_argsort)
qed

lemma argsort_example: "argsort tie [9/10, 1/10] = [1, 0]"
  by (cases "tie [9/10, 1/10] 0 \<le> tie [9/10, 1/10] 1") (simp_all add: argsort_def upt_rec)

text \<open>On a row with equal values the order depends on \<open>tie\<close>: a stable sort puts the
  first of two equal maxima last but one, and predicts the second; the reverse rank
  predicts the first.\<close>

lemma argsort_tie_by_index: "argsort by_index [1/2, 1/2, 0, 0] = [2, 3, 0, 1]"
  by (simp add: argsort_def by_index_def upt_rec)

lemma argsort_tie_reverse: "argsort (\<lambda>xs i. length xs - i) [1/2, 1/2, 0, 0] = [3, 2, 1, 0]"
  by (simp add: argsort_def upt_rec)

text \<open>Whatever \<open>tie\<close>, the result lists every index once, in ascending order of the
  values; and every such list is the result for some \<open>tie\<close>.\<close>

lemma position_in_distinct:
  assumes "distinct idx" "k < length idx"
  shows "length (takeWhile (\<lambda>j. j \<noteq> idx ! k) idx) = k"
proof -
  have "takeWhile (\<lambda>j. j \<noteq> idx ! k) idx = take k idx"
  proof (rule takeWhile_eq_take_P_nth)
    fix i assume "i < k" "i < length idx"
    then show "idx ! i \<noteq> idx ! k" using assms by (simp add: nth_eq_iff_index_eq)
  next
    show "k < length idx \<Longrightarrow> \<not> idx ! k \<noteq> idx ! k" by simp
  qed
  then show ?thesis using assms(2) by simp
qed

lemma positions_of_distinct:
  assumes "distinct idx"
  shows "map (\<lambda>i. length (takeWhile (\<lambda>j. j \<noteq> i) idx)) idx = [0..<length idx]"
  by (rule nth_equalityI) (simp_all add: position_in_distinct[OF assms])

lemma argsort_covers:
  assumes "distinct idx" "set idx = {0..<length xs}" "sorted (map (\<lambda>i. xs ! i) idx)"
  shows "\<exists>tie. argsort tie xs = idx"
proof -
  let ?pos = "\<lambda>i. length (takeWhile (\<lambda>j. j \<noteq> i) idx)"
  let ?pre = "sort_key ?pos [0..<length xs]"
  have inj: "inj_on ?pos (set idx)"
  proof (rule inj_onI)
    fix a b assume a: "a \<in> set idx" and b: "b \<in> set idx" and e: "?pos a = ?pos b"
    from a obtain k where k: "k < length idx" "idx ! k = a" by (auto simp: in_set_conv_nth)
    from b obtain l where l: "l < length idx" "idx ! l = b" by (auto simp: in_set_conv_nth)
    from position_in_distinct[OF assms(1) k(1)] position_in_distinct[OF assms(1) l(1)] e k l
    show "a = b" by auto
  qed
  have s1: "sorted (map ?pos ?pre)" by simp
  have set_pre: "set ?pre = set idx" using assms(2) by simp
  have d1: "distinct (map ?pos ?pre)"
    using inj set_pre by (simp add: distinct_map)
  have s2: "sorted (map ?pos idx)" "distinct (map ?pos idx)"
    by (simp_all add: positions_of_distinct[OF assms(1)])
  have "set (map ?pos ?pre) = set (map ?pos idx)" using set_pre by simp
  from sorted_distinct_set_unique[OF s1 d1 s2 this] have "map ?pos ?pre = map ?pos idx" .
  moreover have "inj_on ?pos (set ?pre \<union> set idx)" using inj set_pre by simp
  ultimately have "?pre = idx" by (simp add: inj_on_map_eq_map)
  then have "argsort (\<lambda>xs. ?pos) xs = sort_key (\<lambda>i. xs ! i) idx"
    by (simp add: argsort_def)
  also have "\<dots> = idx" using assms(3) by (rule sort_key_id_if_sorted)
  finally show ?thesis by blast
qed

lemma argsort_valid:
  "distinct (argsort tie xs) \<and> set (argsort tie xs) = {0..<length xs}
     \<and> sorted (map (\<lambda>i. xs ! i) (argsort tie xs))"
  by (simp add: argsort_def)

lemma prediction_of_example: "prediction_of tie [9/10, 1/10] = 0"
  by (simp add: prediction_of_def argsort_example)

text \<open>What one update does to the history, and where the MILD metrics come from.\<close>

lemma calculate_metrics_token_history:
  assumes "calculate_metrics_token tie mc p y h = Inr (m, h')"
  shows "total_epochs h' = total_epochs h + 1"
    and "hist_MILD h' = hist_MILD h @ [if prediction_of tie p = y then 1 else 0]"
    and "length (hist_prediction h') = length (hist_prediction h)"
    and "mild_m m = calculate_mild_m (hist_MILD h')"
    and "mild_f m = calculate_mild_f (hist_MILD h')"
    and "mild m = int (mild_m m) - int (mild_f m)"
  using assms
  by (auto simp: calculate_metrics_token_def Let_def prediction_of_def split: if_splits)

text \<open>The update returns whenever the softmax row has two entries at least, the
  observed label is one of its indices and the prediction counts have a place for
  every index.\<close>

lemma calculate_metrics_token_returns:
  assumes "2 \<le> length p" "y < length p" "length p \<le> length (hist_prediction h)"
  shows "\<exists>m h'. calculate_metrics_token tie mc p y h = Inr (m, h')"
proof -
  have "p \<noteq> []" using assms(1) by auto
  then have "prediction_of tie p < length p" by (rule prediction_of_less)
  then have "take 2 (rev (argsort tie p)) ! 0 < length (hist_prediction h)"
    using assms(3) by (simp add: prediction_of_def)
  moreover have "length (take 2 (rev (argsort tie p))) = 2"
    using assms(1) by (simp add: length_argsort)
  ultimately show ?thesis using assms(2)
    by (simp add: calculate_metrics_token_def Let_def)
qed

lemma update_epochs_history:
  assumes "\<forall>(p, y) \<in> set es. 2 \<le> length p \<and> y < length p \<and> length p \<le> length (hist_prediction h)"
  shows "\<exists>ms h'. update_epochs tie mc es h = Inr (ms, h') \<and> length ms = length es
           \<and> total_epochs h' = total_epochs h + length es
           \<and> length (hist_MILD h') = length (hist_MILD h) + length es"
  using assms
proof (induction es arbitrary: h)
  case Nil
  then show ?case by simp
next
  case (Cons e es)
  obtain p y where e: "e = (p, y)" by (cases e)
  from Cons.prems e have py: "2 \<le> length p" "y < length p" "length p \<le> length (hist_prediction h)"
    by auto
  from calculate_metrics_token_returns[OF py] obtain m h1 where
    1: "calculate_metrics_token tie mc p y h = Inr (m, h1)" by blast
  have len: "length (hist_prediction h1) = length (hist_prediction h)"
    by (rule calculate_metrics_token_history(3)[OF 1])
  from Cons.prems have "\<forall>(p, y) \<in> set es. 2 \<le> length p \<and> y < length p \<and> length p \<le> length (hist_prediction h1)"
    by (simp add: len)
  from Cons.IH[OF this] obtain ms h' where
    2: "update_epochs tie mc es h1 = Inr (ms, h')" "length ms = length es"
       "total_epochs h' = total_epochs h1 + length es"
       "length (hist_MILD h') = length (hist_MILD h1) + length es" by blast
  have "update_epochs tie mc (e # es) h = Inr (m # ms, h')" using e 1 2(1) by simp
  moreover have "total_epochs h1 = total_epochs h + 1" "length (hist_MILD h1) = length (hist_MILD h) + 1"
    using calculate_metrics_token_history(1,2)[OF 1] by simp_all
  ultimately show ?case using 2 by simp
qed

text \<open>
  Claim C1, as the specification states it: after the initialization and after any
  number of updates, \<open>total_epochs\<close> equals the length of \<open>hist_MILD\<close>. The code starts
  \<open>hist_MILD\<close> at \<open>[0]\<close> and \<open>total_epochs\<close> at \<open>0\<close>: right after the initialization the
  numbers are 0 and 1, after one update 1 and 2.
\<close>

theorem total_epochs_length_hist_MILD_counterexample:
  "stored_lengths (update_epochs by_index (ln 2) [] (init_metrics 2)) = Some (0, 1)
   \<and> stored_lengths (update_epochs by_index (ln 2) [([9/10, 1/10], 0)] (init_metrics 2)) = Some (1, 2)"
  by (simp add: stored_lengths_def stored_def init_metrics_def calculate_metrics_token_def
      argsort_example Let_def)

text \<open>
  Claim C1, as the code has it: for every token, the updates of any number \<open>n\<close> of
  epochs after the initialization return (given softmax rows of two entries at least,
  no longer than the tag set, and observed labels among their indices), and then
  \<open>total_epochs\<close> is \<open>n\<close> and the length of \<open>hist_MILD\<close> is \<open>total_epochs + 1\<close>: the list
  holds the initial \<open>0\<close> and one flag per epoch.
\<close>

theorem length_hist_MILD_total_epochs:
  assumes "\<forall>(p, y) \<in> set es. 2 \<le> length p \<and> y < length p \<and> length p \<le> tagset_size"
  shows "\<exists>ms h. update_epochs tie mc es (init_metrics tagset_size) = Inr (ms, h)
           \<and> total_epochs h = length es \<and> length (hist_MILD h) = total_epochs h + 1"
proof -
  have "\<forall>(p, y) \<in> set es. 2 \<le> length p \<and> y < length p
          \<and> length p \<le> length (hist_prediction (init_metrics tagset_size))"
    using assms by (simp add: init_metrics_def)
  from update_epochs_history[OF this, of tie mc] show ?thesis
    by (auto simp: init_metrics_def)
qed

theorem length_hist_MILD_total_epochs_witness:
  "(2 \<le> length [9/10, 1/10 :: real] \<and> (0::nat) < length [9/10, 1/10 :: real]
      \<and> length [9/10, 1/10 :: real] \<le> (2::nat))
   \<and> (\<exists>ms h. update_epochs by_index (ln 2) [([9/10, 1/10], 0)] (init_metrics 2) = Inr (ms, h)
           \<and> total_epochs h = length [([9/10, 1/10] :: real list, 0::nat)]
           \<and> length (hist_MILD h) = total_epochs h + 1)"
  using length_hist_MILD_total_epochs[of "[([9/10, 1/10], 0)]" 2 by_index "ln 2"] by simp

text \<open>
  Claim C2, as the specification states it: after three updates with the correctness
  flags 1, 0, 1 the metrics of the third epoch are \<open>mild_f = 2\<close>, \<open>mild_m = 1\<close> and
  \<open>mild = -1\<close>. With the softmax row \<open>[0.9, 0.1]\<close> in every epoch (one largest entry,
  so that the order among equal values plays no part) and the observed labels
  0, 1, 0 the flags are 1, 0, 1; the stored list is \<open>[0, 1, 0, 1]\<close> and the code computes
  \<open>mild_f = 2\<close>, \<open>mild_m = 2\<close> and \<open>mild = 0\<close>.
\<close>

theorem mild_flags_101_counterexample:
  "map_option hist_MILD (stored (update_epochs by_index (ln 2)
       [([9/10, 1/10], 0), ([9/10, 1/10], 1), ([9/10, 1/10], 0)] (init_metrics 2))) = Some [0, 1, 0, 1]
   \<and> mild_f (last (logged (update_epochs by_index (ln 2)
       [([9/10, 1/10], 0), ([9/10, 1/10], 1), ([9/10, 1/10], 0)] (init_metrics 2)))) = 2
   \<and> mild_m (last (logged (update_epochs by_index (ln 2)
       [([9/10, 1/10], 0), ([9/10, 1/10], 1), ([9/10, 1/10], 0)] (init_metrics 2)))) = 2
   \<and> mild (last (logged (update_epochs by_index (ln 2)
       [([9/10, 1/10], 0), ([9/10, 1/10], 1), ([9/10, 1/10], 0)] (init_metrics 2)))) = 0"
  by (simp add: logged_def stored_def calculate_metrics_token_def argsort_example Let_def
      init_metrics_def calculate_mild_m_filter calculate_mild_f_filter str_nat_0 str_nat_1)

text \<open>
  Claim C2, as the code has it: for a token whose history has gone through exactly
  three updates after the initialization, with the correctness flags 1, 0, 1 (the
  prediction of the code, under whatever order \<open>tie\<close> its argsort has among equal
  values, equals the observed label in the first and the third epoch and differs in
  the second), the three updates return, the stored list of flags is \<open>[0, 1, 0, 1]\<close>
  and the metrics of the third epoch are \<open>mild_f = 2\<close>, \<open>mild_m = 2\<close> (the initial \<open>0\<close>
  of the list is counted) and \<open>mild = mild_m - mild_f = 0\<close>.
\<close>

theorem mild_flags_101:
  assumes "2 \<le> length p1" "y1 < length p1" "length p1 \<le> tagset_size"
      and "2 \<le> length p2" "y2 < length p2" "length p2 \<le> tagset_size"
      and "2 \<le> length p3" "y3 < length p3" "length p3 \<le> tagset_size"
      and "prediction_of tie p1 = y1" "prediction_of tie p2 \<noteq> y2" "prediction_of tie p3 = y3"
  shows "\<exists>m1 m2 m3 h. update_epochs tie mc [(p1, y1), (p2, y2), (p3, y3)] (init_metrics tagset_size)
              = Inr ([m1, m2, m3], h)
           \<and> hist_MILD h = [0, 1, 0, 1]
           \<and> mild_f m3 = 2 \<and> mild_m m3 = 2 \<and> mild m3 = 0"
proof -
  let ?h0 = "init_metrics tagset_size"
  have l0: "length (hist_prediction ?h0) = tagset_size" by (simp add: init_metrics_def)
  obtain m1 h1 where 1: "calculate_metrics_token tie mc p1 y1 ?h0 = Inr (m1, h1)"
    using calculate_metrics_token_returns[of p1 y1 ?h0 tie mc] assms(1-3) l0 by auto
  have l1: "length (hist_prediction h1) = tagset_size"
    using calculate_metrics_token_history(3)[OF 1] l0 by simp
  obtain m2 h2 where 2: "calculate_metrics_token tie mc p2 y2 h1 = Inr (m2, h2)"
    using calculate_metrics_token_returns[of p2 y2 h1 tie mc] assms(4-6) l1 by auto
  have l2: "length (hist_prediction h2) = tagset_size"
    using calculate_metrics_token_history(3)[OF 2] l1 by simp
  obtain m3 h3 where 3: "calculate_metrics_token tie mc p3 y3 h2 = Inr (m3, h3)"
    using calculate_metrics_token_returns[of p3 y3 h2 tie mc] assms(7-9) l2 by auto
  have hist: "hist_MILD h3 = [0, 1, 0, 1]"
    using calculate_metrics_token_history(2)[OF 1] calculate_metrics_token_history(2)[OF 2]
      calculate_metrics_token_history(2)[OF 3] assms(10-12)
    by (simp add: init_metrics_def)
  have f: "mild_f m3 = 2"
    using calculate_metrics_token_history(5)[OF 3] hist
    by (simp add: calculate_mild_f_filter str_nat_0 str_nat_1)
  have m: "mild_m m3 = 2"
    using calculate_metrics_token_history(4)[OF 3] hist
    by (simp add: calculate_mild_m_filter str_nat_0 str_nat_1)
  have "mild m3 = 0" using calculate_metrics_token_history(6)[OF 3] f m by simp
  moreover have "update_epochs tie mc [(p1, y1), (p2, y2), (p3, y3)] ?h0 = Inr ([m1, m2, m3], h3)"
    using 1 2 3 by simp
  ultimately show ?thesis using hist f m by blast
qed

theorem mild_flags_101_witness:
  "(2 \<le> length [9/10, 1/10 :: real] \<and> (0::nat) < length [9/10, 1/10 :: real]
      \<and> length [9/10, 1/10 :: real] \<le> (2::nat) \<and> (1::nat) < length [9/10, 1/10 :: real]
      \<and> prediction_of by_index [9/10, 1/10] = 0 \<and> prediction_of by_index [9/10, 1/10] \<noteq> 1)
   \<and> (\<exists>m1 m2 m3 h. update_epochs by_index (ln 2)
            [([9/10, 1/10], 0), ([9/10, 1/10], 1), ([9/10, 1/10], 0)] (init_metrics 2)
              = Inr ([m1, m2, m3], h)
           \<and> hist_MILD h = [0, 1, 0, 1]
           \<and> mild_f m3 = 2 \<and> mild_m m3 = 2 \<and> mild m3 = 0)"
  using mild_flags_101[of "[9/10, 1/10]" 0 2 "[9/10, 1/10]" 1 "[9/10, 1/10]" 0 by_index "ln 2"]
  by (simp add: prediction_of_example)


section \<open>Properties of the layer metrics\<close>

lemma argmax_rows_returns:
  "\<forall>row \<in> set scores. row \<noteq> [] \<Longrightarrow> \<exists>preds. argmax_rows scores = Inr preds \<and> length preds = length scores"
proof (induction scores)
  case Nil
  then show ?case by simp
next
  case (Cons row rows)
  then obtain preds where "argmax_rows rows = Inr preds" "length preds = length rows" by auto
  moreover from Cons.prems obtain x xs where "row = x # xs" by (cases row) auto
  ultimately show ?case by (simp add: argmax_def)
qed

lemma layer_loop_result:
  assumes "\<forall>i \<in> set idxs. i < length preds"
  shows "\<exists>v'. layer_loop preds gold idxs v = Inr v'
     \<and> pd v' = pd v - (if final_pd v then 0
                        else int (length (takeWhile (\<lambda>i. preds ! i = last preds) idxs)))
     \<and> agree_w_last v' = agree_w_last v + length (filter (\<lambda>i. preds ! i = last preds) idxs)"
  using assms
proof (induction idxs arbitrary: v)
  case Nil
  then show ?case by simp
next
  case (Cons i idxs)
  let ?v1 = "layer_step preds gold i v"
  from Cons.prems have i: "i < length preds" and rest: "\<forall>i \<in> set idxs. i < length preds" by auto
  from Cons.IH[OF rest, of ?v1] obtain v' where
    1: "layer_loop preds gold idxs ?v1 = Inr v'"
       "pd v' = pd ?v1 - (if final_pd ?v1 then 0
                        else int (length (takeWhile (\<lambda>i. preds ! i = last preds) idxs)))"
       "agree_w_last v' = agree_w_last ?v1 + length (filter (\<lambda>i. preds ! i = last preds) idxs)"
    by blast
  have 2: "layer_loop preds gold (i # idxs) v = Inr v'" using i 1(1) by simp
  show ?case
  proof (cases "preds ! i = last preds")
    case True
    then have "pd ?v1 = (if final_pd v then pd v else pd v - 1)" "final_pd ?v1 = final_pd v"
      "agree_w_last ?v1 = agree_w_last v + 1"
      by (simp_all add: layer_step_def Let_def)
    with 1 2 True show ?thesis by auto
  next
    case False
    then have "pd ?v1 = pd v" "final_pd ?v1" "agree_w_last ?v1 = agree_w_last v"
      by (simp_all add: layer_step_def Let_def)
    with 1 2 False show ?thesis by auto
  qed
qed

lemma map_nth_rev_upt: "map (\<lambda>i. xs ! i) (rev [0..<length xs]) = rev xs"
  by (simp add: rev_map[symmetric] map_nth)

lemma takeWhile_indices:
  "length (takeWhile (\<lambda>i. xs ! i = l) (rev [0..<length xs])) = length (takeWhile (\<lambda>p. p = l) (rev xs))"
proof -
  have "takeWhile (\<lambda>p. p = l) (map (\<lambda>i. xs ! i) (rev [0..<length xs]))
        = map (\<lambda>i. xs ! i) (takeWhile ((\<lambda>p. p = l) \<circ> (\<lambda>i. xs ! i)) (rev [0..<length xs]))"
    by (rule takeWhile_map)
  then have "length (takeWhile (\<lambda>p. p = l) (rev xs))
        = length (takeWhile ((\<lambda>p. p = l) \<circ> (\<lambda>i. xs ! i)) (rev [0..<length xs]))"
    by (simp add: map_nth_rev_upt)
  then show ?thesis by (simp add: comp_def)
qed

lemma filter_indices:
  "length (filter (\<lambda>i. xs ! i = l) (rev [0..<length xs])) = length (filter (\<lambda>p. p = l) xs)"
proof -
  have "filter (\<lambda>p. p = l) (map (\<lambda>i. xs ! i) (rev [0..<length xs]))
        = map (\<lambda>i. xs ! i) (filter ((\<lambda>p. p = l) \<circ> (\<lambda>i. xs ! i)) (rev [0..<length xs]))"
    by (rule filter_map)
  then have "length (filter (\<lambda>p. p = l) (rev xs))
        = length (filter ((\<lambda>p. p = l) \<circ> (\<lambda>i. xs ! i)) (rev [0..<length xs]))"
    by (simp add: map_nth_rev_upt)
  moreover have "length (filter (\<lambda>p. p = l) (rev xs)) = length (filter (\<lambda>p. p = l) xs)"
    by (simp add: rev_filter[symmetric])
  ultimately show ?thesis by (simp add: comp_def)
qed

lemma calculate_layer_metrics_result:
  assumes "argmax_rows scores = Inr preds" "length preds = L"
  shows "\<exists>m. calculate_layer_metrics L n_labels scores gold = Inr m
     \<and> prediction_depth m = int L - int (length (takeWhile (\<lambda>p. p = last preds) (rev preds)))
     \<and> total_agree_w_last m = length (filter (\<lambda>p. p = last preds) preds)"
proof -
  let ?v0 = "\<lparr> pd = int L, final_pd = False, fl = L, agree_w_last = 0, agree_w_correct = 0 \<rparr>"
  have "\<forall>i \<in> set (rev [0..<L]). i < length preds" using assms(2) by simp
  from layer_loop_result[OF this, of gold ?v0] obtain v' where
    1: "layer_loop preds gold (rev [0..<L]) ?v0 = Inr v'"
       "pd v' = int L - int (length (takeWhile (\<lambda>i. preds ! i = last preds) (rev [0..<L])))"
       "agree_w_last v' = length (filter (\<lambda>i. preds ! i = last preds) (rev [0..<L]))"
    by auto
  show ?thesis
    using 1 assms takeWhile_indices[of preds "last preds"] filter_indices[of preds "last preds"]
    by (simp add: calculate_layer_metrics_def)
qed

lemma rev_run_last:
  assumes "preds \<noteq> []"
  shows "length (takeWhile (\<lambda>p. p = last preds) (rev preds))
         = 1 + length (takeWhile (\<lambda>p. p = last preds) (rev (butlast preds)))"
proof -
  obtain ys y where "preds = ys @ [y]" using assms by (cases preds rule: rev_cases) auto
  then show ?thesis by simp
qed

text \<open>
  Claim C6: \<open>prediction_depth\<close> starts at \<open>L\<close> and the scan goes over the layers from
  \<open>L-2\<close> down to 0, decrementing once per layer of the run, anchored at the last
  layer, of the layers whose argmax equals the argmax of the last layer, up to the
  first mismatch: \<open>prediction_depth\<close> is \<open>L\<close> minus the length of that run of layers
  before the last one. The comment of the loop says the same (the iteration starts
  from the penultimate layer), but the loop starts at the last layer, which agrees
  with itself and is counted: for two layers with different predictions the code
  returns 1 where the claim gives 2, and for two layers with the same prediction it
  returns 0 where the claim gives 1.
\<close>

theorem prediction_depth_counts_last_layer:
  "map_sum id prediction_depth (calculate_layer_metrics 2 2 [[1, 0], [0, 1]] 0) = Inr 1
   \<and> map_sum id prediction_depth (calculate_layer_metrics 2 2 [[1, 0], [1, 0]] 0) = Inr 0"
  by (simp add: calculate_layer_metrics_def argmax_def layer_step_def upt_rec)

text \<open>
  Claim C10: for every stack of \<open>L \<ge> 1\<close> score rows (of a tagger with \<open>L\<close> layers, no
  row empty) the layer metrics are returned with \<open>total_agree_w_last \<ge> 1\<close> and
  \<open>prediction_depth \<le> L - 1\<close>, since the scan includes the last layer itself; and
  \<open>prediction_depth\<close> is 0 when all the layers agree with the last one.
\<close>

theorem last_layer_agrees_with_itself:
  assumes "1 \<le> L" "length scores = L" "\<forall>row \<in> set scores. row \<noteq> []"
  shows "\<exists>preds m. argmax_rows scores = Inr preds
     \<and> calculate_layer_metrics L n_labels scores gold = Inr m
     \<and> 1 \<le> total_agree_w_last m \<and> prediction_depth m \<le> int L - 1
     \<and> ((\<forall>p \<in> set preds. p = last preds) \<longrightarrow> prediction_depth m = 0)"
proof -
  from argmax_rows_returns[OF assms(3)] obtain preds where
    p: "argmax_rows scores = Inr preds" "length preds = length scores" by blast
  then have len: "length preds = L" and ne: "preds \<noteq> []" using assms(1,2) by auto
  from calculate_layer_metrics_result[OF p(1) len, of n_labels gold] obtain m where
    m: "calculate_layer_metrics L n_labels scores gold = Inr m"
       "prediction_depth m = int L - int (length (takeWhile (\<lambda>p. p = last preds) (rev preds)))"
       "total_agree_w_last m = length (filter (\<lambda>p. p = last preds) preds)" by blast
  have "last preds \<in> set (filter (\<lambda>p. p = last preds) preds)" using ne by simp
  then have "filter (\<lambda>p. p = last preds) preds \<noteq> []" by force
  then have 1: "1 \<le> total_agree_w_last m" using m(3) by (simp add: Suc_le_eq)
  have 2: "prediction_depth m \<le> int L - 1" using m(2) rev_run_last[OF ne] by simp
  have 3: "(\<forall>p \<in> set preds. p = last preds) \<longrightarrow> prediction_depth m = 0"
  proof
    assume "\<forall>p \<in> set preds. p = last preds"
    then have "takeWhile (\<lambda>p. p = last preds) (rev preds) = rev preds" by simp
    then have "length (takeWhile (\<lambda>p. p = last preds) (rev preds)) = L"
      using len by (simp only: length_rev)
    then show "prediction_depth m = 0" using m(2) by simp
  qed
  from p(1) m(1) 1 2 3 show ?thesis by blast
qed

theorem last_layer_agrees_with_itself_witness:
  "(1::nat) \<le> 2 \<and> length [[1, 0], [1, 0 :: real]] = 2 \<and> [1, 0 :: real] \<noteq> []
   \<and> (\<exists>m. argmax_rows [[1, 0], [1, 0]] = Inr [0, 0]
     \<and> calculate_layer_metrics 2 2 [[1, 0], [1, 0]] 0 = Inr m
     \<and> 1 \<le> total_agree_w_last m \<and> prediction_depth m \<le> int 2 - 1
     \<and> prediction_depth m = 0)"
  using last_layer_agrees_with_itself[of 2 "[[1, 0], [1, 0]]" 2 0] by (auto simp: argmax_def)


section \<open>Properties of confidence, variability, entropy and cross entropy\<close>

lemma calculate_metrics_token_unfold:
  assumes "2 \<le> length p" "y < length p" "take 2 (rev (argsort tie p)) ! 0 < length (hist_prediction h)"
  shows "\<exists>m h'. calculate_metrics_token tie mc p y h = Inr (m, h')
     \<and> last_confidence_sum h' = last_confidence_sum h + p ! y
     \<and> confidence m = (last_confidence_sum h + p ! y) / real (total_epochs h + 1)
     \<and> last_sq_difference_sum h' = last_sq_difference_sum h + (p ! y - confidence m)\<^sup>2
     \<and> variability m = np_sqrt (last_sq_difference_sum h' / real (total_epochs h + 1))
     \<and> cross_entropy m = - nan_to_num (np_log (p ! y))
     \<and> entropy m = - sum_list (map (\<lambda>q. q * nan_to_num (np_log q)) p)"
proof -
  have "length (take 2 (rev (argsort tie p))) = 2" using assms(1) by (simp add: length_argsort)
  then show ?thesis using assms(2,3)
    by (simp add: calculate_metrics_token_def Let_def)
qed

lemma calculate_metrics_token_values:
  assumes "2 \<le> length p" "y < length p" "length p \<le> length (hist_prediction h)"
  shows "\<exists>m h'. calculate_metrics_token tie mc p y h = Inr (m, h')
     \<and> last_confidence_sum h' = last_confidence_sum h + p ! y
     \<and> confidence m = (last_confidence_sum h + p ! y) / real (total_epochs h + 1)
     \<and> last_sq_difference_sum h' = last_sq_difference_sum h + (p ! y - confidence m)\<^sup>2
     \<and> variability m = np_sqrt (last_sq_difference_sum h' / real (total_epochs h + 1))
     \<and> cross_entropy m = - nan_to_num (np_log (p ! y))
     \<and> entropy m = - sum_list (map (\<lambda>q. q * nan_to_num (np_log q)) p)"
proof -
  have "p \<noteq> []" using assms(1) by auto
  then have "prediction_of tie p < length p" by (rule prediction_of_less)
  then have "take 2 (rev (argsort tie p)) ! 0 < length (hist_prediction h)"
    using assms(3) by (simp add: prediction_of_def)
  from calculate_metrics_token_unfold[OF assms(1,2) this] show ?thesis .
qed

lemma float32_max_pos: "0 < float32_max"
  by (simp add: float32_max_def)

lemma entropy_term: "q * nan_to_num (np_log q) = (if 0 < q then q * ln q else 0)"
  by (simp add: np_log_def nan_to_num_def)

text \<open>
  Claim C3: for every softmax row \<open>p\<close> of a token (two entries at least), observed label
  \<open>y\<close> among its indices and history \<open>h\<close> (with a prediction count for every index),
  with \<open>n = total_epochs h + 1\<close> and \<open>p_y = p ! y\<close>, the update returns
  \<open>confidence_sum' = last_confidence_sum h + p_y\<close>, \<open>confidence = confidence_sum' / n\<close>,
  \<open>sq_diff_sum' = last_sq_difference_sum h + (p_y - confidence)\<^sup>2\<close> with the confidence
  of this epoch, and \<open>variability = sqrt (sq_diff_sum' / n)\<close> (of numpy: a number when
  the stored sum of squares is not negative, as it is from the initialization on);
  both sums are written into the returned history.
\<close>

theorem confidence_variability_update:
  assumes "2 \<le> length p" "y < length p" "length p \<le> length (hist_prediction h)"
  shows "\<exists>m h'. calculate_metrics_token tie mc p y h = Inr (m, h')
     \<and> last_confidence_sum h' = last_confidence_sum h + p ! y
     \<and> confidence m = last_confidence_sum h' / real (total_epochs h + 1)
     \<and> last_sq_difference_sum h' = last_sq_difference_sum h + (p ! y - confidence m)\<^sup>2
     \<and> variability m = np_sqrt (last_sq_difference_sum h' / real (total_epochs h + 1))
     \<and> (0 \<le> last_sq_difference_sum h \<longrightarrow>
          variability m = Finite (sqrt (last_sq_difference_sum h' / real (total_epochs h + 1))))"
proof -
  from calculate_metrics_token_values[OF assms, of tie mc] obtain m h' where
    r: "calculate_metrics_token tie mc p y h = Inr (m, h')"
       "last_confidence_sum h' = last_confidence_sum h + p ! y"
       "confidence m = (last_confidence_sum h + p ! y) / real (total_epochs h + 1)"
       "last_sq_difference_sum h' = last_sq_difference_sum h + (p ! y - confidence m)\<^sup>2"
       "variability m = np_sqrt (last_sq_difference_sum h' / real (total_epochs h + 1))"
    by blast
  from r(2,3) have c: "confidence m = last_confidence_sum h' / real (total_epochs h + 1)" by simp
  have v: "0 \<le> last_sq_difference_sum h \<longrightarrow>
          variability m = Finite (sqrt (last_sq_difference_sum h' / real (total_epochs h + 1)))"
  proof
    assume "0 \<le> last_sq_difference_sum h"
    then have "0 \<le> last_sq_difference_sum h'" using r(4) by simp
    then have "\<not> last_sq_difference_sum h' / real (total_epochs h + 1) < 0"
      by (simp add: not_less)
    then show "variability m = Finite (sqrt (last_sq_difference_sum h' / real (total_epochs h + 1)))"
      using r(5) by (simp only: np_sqrt_def if_False)
  qed
  from r(1,2,4,5) c v show ?thesis by blast
qed

theorem confidence_variability_update_witness:
  "2 \<le> length [9/10, 1/10 :: real] \<and> (0::nat) < length [9/10, 1/10 :: real]
   \<and> length [9/10, 1/10 :: real] \<le> length (hist_prediction (init_metrics 2))
   \<and> (\<exists>m h'. calculate_metrics_token by_index (ln 2) [9/10, 1/10] 0 (init_metrics 2) = Inr (m, h')
     \<and> last_confidence_sum h' = 9/10
     \<and> confidence m = 9/10
     \<and> last_sq_difference_sum h' = 0
     \<and> variability m = Finite 0)"
proof -
  have h: "2 \<le> length [9/10, 1/10 :: real]" "(0::nat) < length [9/10, 1/10 :: real]"
    "length [9/10, 1/10 :: real] \<le> length (hist_prediction (init_metrics 2))"
    by (simp_all add: init_metrics_def)
  from confidence_variability_update[OF h, of by_index "ln 2"] obtain m h' where
    r: "calculate_metrics_token by_index (ln 2) [9/10, 1/10] 0 (init_metrics 2) = Inr (m, h')"
       "last_confidence_sum h' = last_confidence_sum (init_metrics 2) + [9/10, 1/10] ! 0"
       "confidence m = last_confidence_sum h' / real (total_epochs (init_metrics 2) + 1)"
       "last_sq_difference_sum h' = last_sq_difference_sum (init_metrics 2) + ([9/10, 1/10] ! 0 - confidence m)\<^sup>2"
       "variability m = np_sqrt (last_sq_difference_sum h' / real (total_epochs (init_metrics 2) + 1))"
    by blast
  have 1: "last_confidence_sum h' = 9/10" using r(2) by (simp add: init_metrics_def)
  have 2: "confidence m = 9/10" using r(3) 1 by (simp add: init_metrics_def)
  have 3: "last_sq_difference_sum h' = 0" using r(4) 2 by (simp add: init_metrics_def)
  have 4: "variability m = Finite 0" using r(5) 3 by (simp add: init_metrics_def np_sqrt_def)
  from h r(1) 1 2 3 4 show ?thesis by blast
qed

text \<open>
  Claim C7, as the specification states it: when the softmax probability of the
  observed label is zero, \<open>cross_entropy\<close> is \<open>0.0\<close>. The code computes
  \<open>- nan_to_num (log 0)\<close>, and \<open>nan_to_num\<close> puts the most negative finite number in the
  place of \<open>-inf\<close>: for the softmax row \<open>[1, 0]\<close> and the observed label 1 the metric
  is the largest finite single-precision number.
\<close>

theorem cross_entropy_zero_probability_counterexample:
  "cross_entropy (last (logged (update_epochs by_index (ln 2) [([1, 0], 1)] (init_metrics 2)))) = float32_max
   \<and> float32_max = 340282346638528859811704183484516925440"
  by (simp add: logged_def calculate_metrics_token_def argsort_def by_index_def upt_rec Let_def init_metrics_def
      np_log_def nan_to_num_def float32_max_def)

text \<open>
  Claim C7, as the code has it: for every token whose softmax probability of the observed
  label is zero, the update returns and \<open>cross_entropy\<close> is the largest finite number of
  the float type, positive and finite (never NaN or infinite, and not zero); \<open>entropy\<close>
  is the finite sum \<open>- \<Sum> p log p\<close> over the positive probabilities, a term with
  \<open>log 0\<close> being zero.
\<close>

theorem cross_entropy_zero_probability:
  assumes "2 \<le> length p" "y < length p" "length p \<le> length (hist_prediction h)" "p ! y = 0"
  shows "\<exists>m h'. calculate_metrics_token tie mc p y h = Inr (m, h')
     \<and> cross_entropy m = float32_max \<and> 0 < cross_entropy m
     \<and> entropy m = - sum_list (map (\<lambda>q. if 0 < q then q * ln q else 0) p)"
proof -
  from calculate_metrics_token_values[OF assms(1-3), of tie mc] obtain m h' where
    r: "calculate_metrics_token tie mc p y h = Inr (m, h')"
       "cross_entropy m = - nan_to_num (np_log (p ! y))"
       "entropy m = - sum_list (map (\<lambda>q. q * nan_to_num (np_log q)) p)"
    by blast
  have 1: "cross_entropy m = float32_max"
    using r(2) assms(4) by (simp add: np_log_def nan_to_num_def)
  have 2: "0 < cross_entropy m" using 1 float32_max_pos by simp
  have 3: "entropy m = - sum_list (map (\<lambda>q. if 0 < q then q * ln q else 0) p)"
    using r(3) by (simp add: entropy_term)
  from r(1) 1 2 3 show ?thesis by blast
qed

theorem cross_entropy_zero_probability_witness:
  "2 \<le> length [1, 0 :: real] \<and> (1::nat) < length [1, 0 :: real]
   \<and> length [1, 0 :: real] \<le> length (hist_prediction (init_metrics 2)) \<and> [1, 0 :: real] ! 1 = 0
   \<and> (\<exists>m h'. calculate_metrics_token by_index (ln 2) [1, 0] 1 (init_metrics 2) = Inr (m, h')
     \<and> cross_entropy m = float32_max \<and> 0 < cross_entropy m
     \<and> entropy m = 0)"
proof -
  have h: "2 \<le> length [1, 0 :: real]" "(1::nat) < length [1, 0 :: real]"
    "length [1, 0 :: real] \<le> length (hist_prediction (init_metrics 2))" "[1, 0 :: real] ! 1 = 0"
    by (simp_all add: init_metrics_def)
  from cross_entropy_zero_probability[OF h, of by_index "ln 2"] obtain m h' where
    r: "calculate_metrics_token by_index (ln 2) [1, 0] 1 (init_metrics 2) = Inr (m, h')"
       "cross_entropy m = float32_max" "0 < cross_entropy m"
       "entropy m = - sum_list (map (\<lambda>q. if 0 < q then q * ln q else 0) [1, 0 :: real])"
    by blast
  have "entropy m = 0" using r(4) by simp
  with h r(1,2,3) show ?thesis by blast
qed


section \<open>Properties of the category test\<close>

text \<open>
  Claim C8: for every observed and predicted BIO tag where the observed tag does not end
  in \<open>MASK\<close>, the category test holds for exactly one of the four categories, the one
  given by (observed = predicted, observed = \<open>O\<close>): (true, true) is 1, (false, true)
  is 2, (true, false) is 3, (false, false) is 4; where the observed tag ends in \<open>MASK\<close>
  the test holds for no category.
\<close>

theorem category_condition_partition:
  "(\<not> endswith observed ''MASK'' \<longrightarrow>
      category_condition ''1'' observed predicted = Inr (observed = predicted \<and> observed = ''O'')
    \<and> category_condition ''2'' observed predicted = Inr (observed \<noteq> predicted \<and> observed = ''O'')
    \<and> category_condition ''3'' observed predicted = Inr (observed = predicted \<and> observed \<noteq> ''O'')
    \<and> category_condition ''4'' observed predicted = Inr (observed \<noteq> predicted \<and> observed \<noteq> ''O'')
    \<and> (\<exists>!c. c \<in> {''1'', ''2'', ''3'', ''4''} \<and> category_condition c observed predicted = Inr True))
   \<and> (endswith observed ''MASK'' \<longrightarrow> (\<forall>c. category_condition c observed predicted = Inr False))"
proof -
  have 1: "\<not> endswith observed ''MASK'' \<Longrightarrow>
      category_condition ''1'' observed predicted = Inr (observed = predicted \<and> observed = ''O'')
    \<and> category_condition ''2'' observed predicted = Inr (observed \<noteq> predicted \<and> observed = ''O'')
    \<and> category_condition ''3'' observed predicted = Inr (observed = predicted \<and> observed \<noteq> ''O'')
    \<and> category_condition ''4'' observed predicted = Inr (observed \<noteq> predicted \<and> observed \<noteq> ''O'')"
    by (auto simp: category_condition_def category_conditions_def)
  have 2: "\<exists>!c. c \<in> {''1'', ''2'', ''3'', ''4''} \<and> category_condition c observed predicted = Inr True"
    if "\<not> endswith observed ''MASK''"
  proof (cases "observed = predicted"; cases "observed = ''O''")
  qed (use 1[OF that] in \<open>auto\<close>)
  have 3: "endswith observed ''MASK'' \<Longrightarrow> category_condition c observed predicted = Inr False" for c
    by (simp add: category_condition_def)
  from 1 2 3 show ?thesis by blast
qed

theorem category_condition_partition_witness:
  "\<not> endswith ''S-PER'' ''MASK'' \<and> endswith ''S-MASK'' ''MASK''
   \<and> category_condition ''4'' ''S-PER'' ''O'' = Inr True
   \<and> category_condition ''1'' ''S-PER'' ''O'' = Inr False
   \<and> category_condition ''2'' ''S-PER'' ''O'' = Inr False
   \<and> category_condition ''3'' ''S-PER'' ''O'' = Inr False
   \<and> category_condition ''4'' ''S-MASK'' ''O'' = Inr False"
  using category_condition_partition[of "''S-PER''" "''O''"] category_condition_partition[of "''S-MASK''" "''O''"]
  by (simp add: endswith_def)


section \<open>What the mask and the relabel operation leave unchanged\<close>

lemma same_but_refl: "same_but c t t" by (simp add: same_but_def)

lemma same_but_set_label: "same_but c t (set_label t c v)"
  by (simp add: same_but_def set_label_def)

lemma relabel_token_frame:
  "relabel_token a t v = Inr (t', v') \<Longrightarrow> same_but (new_tag_column_bio a) t t'"
  by (auto simp: relabel_token_def Let_def same_but_refl same_but_set_label
      split: sum.splits bool.splits if_splits)

lemma mask_token_frame:
  "mask_token a t v = Inr (t', v') \<Longrightarrow> same_but (new_tag_column_bio a) t t'"
  by (auto simp: mask_token_def Let_def same_but_refl same_but_set_label
      split: sum.splits bool.splits if_splits)

lemma relabel_tokens_frame:
  "relabel_tokens a ts v = Inr (ts', v') \<Longrightarrow> list_all2 (same_but (new_tag_column_bio a)) ts ts'"
proof (induction ts arbitrary: v ts')
  case Nil
  then show ?case by simp
next
  case (Cons t ts)
  then show ?case
    by (auto split: sum.splits prod.splits dest: relabel_token_frame)
qed

lemma mask_tokens_frame:
  "mask_tokens a ts v = Inr (ts', v') \<Longrightarrow> list_all2 (same_but (new_tag_column_bio a)) ts ts'"
proof (induction ts arbitrary: v ts')
  case Nil
  then show ?case by simp
next
  case (Cons t ts)
  then show ?case
    by (auto split: sum.splits prod.splits dest: mask_token_frame)
qed

lemma set_span_label_frame:
  "tokens (set_span_label s c a b v sc) = tokens s"
  "spans_but c (set_span_label s c a b v sc) = spans_but c s"
  by (auto simp: set_span_label_def spans_but_def intro: filter_cong)

lemma set_spans_frame:
  "set_spans c ps s = Inr s' \<Longrightarrow> tokens s' = tokens s \<and> spans_but c s' = spans_but c s"
proof (induction c ps s rule: set_spans.induct)
  case (1 c s)
  then show ?case by simp
next
  case (2 c span_indices score label ps s)
  then show ?case by (auto simp: set_span_label_frame split: if_splits)
qed

lemma relabel_sentence_frame:
  "relabel_sentence g a s n = Inr (s', n') \<Longrightarrow> sentence_frame a s s'"
  by (auto simp: relabel_sentence_def sentence_frame_def Let_def spans_but_def
      split: sum.splits prod.splits dest!: relabel_tokens_frame set_spans_frame)

lemma mask_sentence_frame:
  "mask_sentence g a s n = Inr (s', n') \<Longrightarrow> sentence_frame a s s'"
  by (auto simp: mask_sentence_def sentence_frame_def Let_def spans_but_def
      split: sum.splits prod.splits dest!: mask_tokens_frame set_spans_frame)

lemma relabel_sentences_frame:
  "relabel_sentences g a ds n = Inr (ds', n') \<Longrightarrow> list_all2 (sentence_frame a) ds ds'"
proof (induction ds arbitrary: n ds')
  case Nil
  then show ?case by simp
next
  case (Cons s ds)
  then show ?case
    by (auto split: sum.splits prod.splits dest: relabel_sentence_frame)
qed

lemma mask_sentences_frame:
  "mask_sentences g a ds n = Inr (ds', n') \<Longrightarrow> list_all2 (sentence_frame a) ds ds'"
proof (induction ds arbitrary: n ds')
  case Nil
  then show ?case by simp
next
  case (Cons s ds)
  then show ?case
    by (auto split: sum.splits prod.splits dest: mask_sentence_frame)
qed

lemma category_frame:
  assumes "mask_category g a ds = Inr (ds', n) \<or> relabel_category g a ds = Inr (ds', n)"
  shows "list_all2 (sentence_frame a) ds ds'"
  using assms
  by (auto simp: mask_category_def relabel_category_def split: sum.splits prod.splits
      dest: mask_sentences_frame relabel_sentences_frame)

lemma filter_column_spans_but:
  assumes "spans_but c s' = spans_but c s" "c' \<noteq> c"
  shows "filter (\<lambda>l. column l = c') (span_labels s') = filter (\<lambda>l. column l = c') (span_labels s)"
proof -
  have "filter (\<lambda>l. column l = c') (span_labels x) = filter (\<lambda>l. column l = c') (spans_but c x)" for x
    using assms(2) by (auto simp: spans_but_def intro: filter_cong)
  then show ?thesis using assms(1) by simp
qed

lemma bio_columns_differ: "tag_column a \<noteq> new_tag_column a \<Longrightarrow> tag_column_bio a \<noteq> new_tag_column_bio a"
  by (simp add: tag_column_bio_def new_tag_column_bio_def)

text \<open>
  Claim C9: for every dataset, the mask operation and the relabel operation write only
  the new BIO tag column of the tokens and the new span column of the sentences: the
  text, the metrics and the label of every other column of every token, and the span
  labels of every other column, are after the operation what they were before. In
  particular, when the new tag column is not the original one, the original observed
  BIO tag of every token and the original span annotation are unchanged. (The original
  column is written by \<open>copy_new_tag_to_original\<close> only.)
\<close>

theorem mask_relabel_frame:
  assumes "mask_category g a ds = Inr (ds', n) \<or> relabel_category g a ds = Inr (ds', n)"
  shows "length ds' = length ds
     \<and> (\<forall>i < length ds. length (tokens (ds' ! i)) = length (tokens (ds ! i))
          \<and> (\<forall>j < length (tokens (ds ! i)). \<forall>c. c \<noteq> new_tag_column_bio a \<longrightarrow>
                 labels (tokens (ds' ! i) ! j) c = labels (tokens (ds ! i) ! j) c)
          \<and> (\<forall>c. c \<noteq> new_tag_column a \<longrightarrow>
                 filter (\<lambda>l. column l = c) (span_labels (ds' ! i))
                 = filter (\<lambda>l. column l = c) (span_labels (ds ! i))))
     \<and> (tag_column a \<noteq> new_tag_column a \<longrightarrow>
          (\<forall>i < length ds.
              (\<forall>j < length (tokens (ds ! i)).
                  get_label (tokens (ds' ! i) ! j) (tag_column_bio a)
                  = get_label (tokens (ds ! i) ! j) (tag_column_bio a))
              \<and> filter (\<lambda>l. column l = tag_column a) (span_labels (ds' ! i))
                = filter (\<lambda>l. column l = tag_column a) (span_labels (ds ! i))))"
proof -
  from category_frame[OF assms] have fr: "list_all2 (sentence_frame a) ds ds'" .
  then have len: "length ds' = length ds" by (simp add: list_all2_lengthD)
  have sent: "sentence_frame a (ds ! i) (ds' ! i)" if "i < length ds" for i
    using fr that by (simp add: list_all2_conv_all_nth)
  have toks: "length (tokens (ds' ! i)) = length (tokens (ds ! i))" if "i < length ds" for i
  proof -
    from sent[OF that] have "list_all2 (same_but (new_tag_column_bio a)) (tokens (ds ! i)) (tokens (ds' ! i))"
      by (simp add: sentence_frame_def)
    then show ?thesis by (rule list_all2_lengthD[symmetric])
  qed
  have tok: "same_but (new_tag_column_bio a) (tokens (ds ! i) ! j) (tokens (ds' ! i) ! j)"
    if "i < length ds" "j < length (tokens (ds ! i))" for i j
    using sent[OF that(1)] that(2) by (simp add: sentence_frame_def list_all2_conv_all_nth)
  have lab: "labels (tokens (ds' ! i) ! j) c = labels (tokens (ds ! i) ! j) c"
    if "i < length ds" "j < length (tokens (ds ! i))" "c \<noteq> new_tag_column_bio a" for i j c
    using tok[OF that(1,2)] that(3) by (simp add: same_but_def)
  have sp: "filter (\<lambda>l. column l = c) (span_labels (ds' ! i))
                 = filter (\<lambda>l. column l = c) (span_labels (ds ! i))"
    if "i < length ds" "c \<noteq> new_tag_column a" for i c
  proof -
    from sent[OF that(1)] have
      "spans_but (new_tag_column a) (ds' ! i) = spans_but (new_tag_column a) (ds ! i)"
      by (simp add: sentence_frame_def)
    then show ?thesis using that(2) by (rule filter_column_spans_but)
  qed
  have get: "get_label (tokens (ds' ! i) ! j) (tag_column_bio a)
                  = get_label (tokens (ds ! i) ! j) (tag_column_bio a)"
    if "tag_column a \<noteq> new_tag_column a" "i < length ds" "j < length (tokens (ds ! i))" for i j
    using lab[OF that(2,3) bio_columns_differ[OF that(1)]] by (simp add: get_label_def)
  have general: "\<forall>i < length ds. length (tokens (ds' ! i)) = length (tokens (ds ! i))
          \<and> (\<forall>j < length (tokens (ds ! i)). \<forall>c. c \<noteq> new_tag_column_bio a \<longrightarrow>
                 labels (tokens (ds' ! i) ! j) c = labels (tokens (ds ! i) ! j) c)
          \<and> (\<forall>c. c \<noteq> new_tag_column a \<longrightarrow>
                 filter (\<lambda>l. column l = c) (span_labels (ds' ! i))
                 = filter (\<lambda>l. column l = c) (span_labels (ds ! i)))"
    by (intro allI impI conjI) (simp_all add: toks lab sp)
  have original: "tag_column a \<noteq> new_tag_column a \<longrightarrow>
          (\<forall>i < length ds.
              (\<forall>j < length (tokens (ds ! i)).
                  get_label (tokens (ds' ! i) ! j) (tag_column_bio a)
                  = get_label (tokens (ds ! i) ! j) (tag_column_bio a))
              \<and> filter (\<lambda>l. column l = tag_column a) (span_labels (ds' ! i))
                = filter (\<lambda>l. column l = tag_column a) (span_labels (ds ! i)))"
    by (intro allI impI conjI) (simp_all add: get sp)
  show ?thesis by (intro conjI len general original)
qed

theorem mask_relabel_frame_witness:
  "let a = \<lparr> tag_column = ''ner'', new_tag_column = ''ner_new'',
             prediction_bio_column = ''predicted_bio'', metric = ''confidence'',
             threshold = 5/10, direction = ''left'', category_id = ''4'' \<rparr>;
       dataset = [\<lparr> tokens = [\<lparr> token_text = ''Paris'',
                       labels = [''ner_bio'' \<mapsto> ''S-LOC'', ''predicted_bio'' \<mapsto> ''O'',
                                 ''ner_new_bio'' \<mapsto> ''S-LOC''],
                       metric_values = [''confidence'' \<mapsto> 2/10] \<rparr>],
                    span_labels = [\<lparr> column = ''ner'', first_token = 0, end_token = 1,
                                      span_value = ''LOC'', span_score = 1 \<rparr>] \<rparr>]
   in tag_column a \<noteq> new_tag_column a
      \<and> (\<exists>dataset' n.
            mask_category (\<lambda>tags. [([0], 1, ''MASK'')]) a dataset = Inr (dataset', n)
          \<and> get_label (tokens (dataset' ! 0) ! 0) ''ner_new_bio'' = ''S-MASK''
          \<and> get_label (tokens (dataset' ! 0) ! 0) (tag_column_bio a)
              = get_label (tokens (dataset ! 0) ! 0) (tag_column_bio a)
          \<and> filter (\<lambda>l. column l = tag_column a) (span_labels (dataset' ! 0))
              = filter (\<lambda>l. column l = tag_column a) (span_labels (dataset ! 0)))"
proof -
  let ?a = "\<lparr> tag_column = ''ner'', new_tag_column = ''ner_new'',
             prediction_bio_column = ''predicted_bio'', metric = ''confidence'',
             threshold = 5/10, direction = ''left'', category_id = ''4'' \<rparr>"
  let ?t = "\<lparr> token_text = ''Paris'',
                       labels = [''ner_bio'' \<mapsto> ''S-LOC'', ''predicted_bio'' \<mapsto> ''O'',
                                 ''ner_new_bio'' \<mapsto> ''S-LOC''],
                       metric_values = [''confidence'' \<mapsto> 2/10] \<rparr>"
  let ?s = "\<lparr> tokens = [?t],
                    span_labels = [\<lparr> column = ''ner'', first_token = 0, end_token = 1,
                                      span_value = ''LOC'', span_score = 1 \<rparr>] \<rparr>"
  let ?g = "\<lambda>tags :: string list. [([0::nat], 1::real, ''MASK'')]"
  let ?s' = "set_span_label (?s\<lparr>tokens := [set_label ?t ''ner_new_bio'' ''S-MASK'']\<rparr>)
               ''ner_new'' 0 1 ''MASK'' 1"
  have r: "mask_category ?g ?a [?s] = Inr ([?s'], 1, 0)"
    by (simp add: mask_category_def mask_sentence_def mask_token_def Let_def get_label_def
        get_metric_def tag_column_bio_def new_tag_column_bio_def category_condition_def
        category_conditions_def endswith_def passes_threshold_def)
  have d: "tag_column ?a \<noteq> new_tag_column ?a" by simp
  have m: "get_label (tokens ([?s'] ! 0) ! 0) ''ner_new_bio'' = ''S-MASK''"
    by (simp add: set_span_label_def get_label_def set_label_def)
  from mask_relabel_frame[OF disjI1[OF r]] d have
    "get_label (tokens ([?s'] ! 0) ! 0) (tag_column_bio ?a)
              = get_label (tokens ([?s] ! 0) ! 0) (tag_column_bio ?a)
     \<and> filter (\<lambda>l. column l = tag_column ?a) (span_labels ([?s'] ! 0))
              = filter (\<lambda>l. column l = tag_column ?a) (span_labels ([?s] ! 0))"
    by simp
  with r d m show ?thesis unfolding Let_def by blast
qed

text \<open>The copy-back does overwrite the original annotation.\<close>

lemma copy_new_tag_to_original_overwrites:
  "map span_labels (copy_new_tag_to_original ''ner'' ''ner_new''
       [\<lparr> tokens = [], span_labels =
            [\<lparr> column = ''ner'', first_token = 0, end_token = 1, span_value = ''LOC'', span_score = 1 \<rparr>,
             \<lparr> column = ''ner_new'', first_token = 0, end_token = 1, span_value = ''MASK'', span_score = 1 \<rparr>] \<rparr>])
   = [[\<lparr> column = ''ner_new'', first_token = 0, end_token = 1, span_value = ''MASK'', span_score = 1 \<rparr>,
       \<lparr> column = ''ner'', first_token = 0, end_token = 1, span_value = ''MASK'', span_score = 1 \<rparr>]]"
  by (simp add: copy_new_tag_to_original_def copy_span_labels_def set_span_label_def)


section \<open>Propagation of a relabel to the next token\<close>





section \<open>A masked token in the later steps of a schedule\<close>

lemma set_spans_returns:
  "\<forall>(span_indices, score, label) \<in> set ps. span_indices \<noteq> []
     \<Longrightarrow> \<exists>s'. set_spans c ps s = Inr s' \<and> tokens s' = tokens s"
proof (induction c ps s rule: set_spans.induct)
  case (1 c s)
  then show ?case by simp
next
  case (2 c span_indices score label ps s)
  then show ?case by (auto simp: set_span_label_def)
qed

lemma mask_sentence_tokens:
  assumes "\<forall>tags. \<forall>(span_indices, score, label) \<in> set (g tags). span_indices \<noteq> []"
      and "mask_tokens a (tokens s) \<lparr> flag = False, prev = ''O'', previous_changed = False,
               tokens_changed = n, tokens_changed_additionally = 0 \<rparr> = Inr (ts, v)"
  shows "\<exists>s'. mask_sentence g a s n = Inr (s', tokens_changed v) \<and> tokens s' = ts"
proof -
  let ?tags = "map (\<lambda>t. get_label t (new_tag_column_bio a)) ts"
  from assms(1) have "\<forall>(span_indices, score, label) \<in> set (g ?tags). span_indices \<noteq> []" by blast
  from set_spans_returns[OF this, of "new_tag_column a" "s\<lparr>tokens := ts\<rparr>"] obtain s' where
    "set_spans (new_tag_column a) (g ?tags) (s\<lparr>tokens := ts\<rparr>) = Inr s'" "tokens s' = ts" by auto
  then show ?thesis using assms(2) by (simp add: mask_sentence_def Let_def)
qed

lemma relabel_sentence_tokens:
  assumes "\<forall>tags. \<forall>(span_indices, score, label) \<in> set (g tags). span_indices \<noteq> []"
      and "relabel_tokens a (tokens s) \<lparr> flag = False, prev = ''O'', previous_changed = False,
               tokens_changed = fst n, tokens_changed_additionally = snd n \<rparr> = Inr (ts, v)"
  shows "\<exists>s'. relabel_sentence g a s n = Inr (s', tokens_changed v, tokens_changed_additionally v)
            \<and> tokens s' = ts"
proof -
  let ?tags = "map (\<lambda>t. get_label t (new_tag_column_bio a)) ts"
  from assms(1) have "\<forall>(span_indices, score, label) \<in> set (g ?tags). span_indices \<noteq> []" by blast
  from set_spans_returns[OF this, of "new_tag_column a" "s\<lparr>tokens := ts\<rparr>"] obtain s' where
    "set_spans (new_tag_column a) (g ?tags) (s\<lparr>tokens := ts\<rparr>) = Inr s'" "tokens s' = ts" by auto
  then show ?thesis using assms(2) by (simp add: relabel_sentence_def Let_def)
qed

text \<open>
  Claim C4 says that a token masked by one step of a schedule is never classified,
  relabeled or masked again by a later step, since the category test excludes the tags
  that end in \<open>MASK\<close>. The test reads the observed BIO column, which every step fills
  again from the column \<open>noisy\<close> of its epoch log; the mask is written to the new BIO
  column, which the test never reads. For a dataset of one token with the observed tag
  \<open>S-PER\<close>, a mask step for category 3 at epoch 1 and a relabel step for category 4 at
  epoch 2, and whatever span decoder (one that returns no empty span): after the first
  step the new tag is \<open>S-MASK\<close>; the second step classifies the token into category 4
  and relabels it to \<open>S-LOC\<close>, and both steps report one changed token.
\<close>

theorem masked_token_relabeled_by_later_step:
  assumes g: "\<forall>tags. \<forall>(span_indices, score, label) \<in> set (g tags). span_indices \<noteq> []"
  shows "let dataset = [\<lparr> tokens = [\<lparr> token_text = ''Paris'', labels = [''ner_new_bio'' \<mapsto> ''S-PER''],
                                      metric_values = Map.empty \<rparr>],
                           span_labels = [] \<rparr>];
             logs = [1 \<mapsto> [Row 0 0 ''S-PER'' ''S-PER'' [''confidence'' \<mapsto> 9/10], Blank],
                     2 \<mapsto> [Row 0 0 ''S-LOC'' ''S-PER'' [''confidence'' \<mapsto> 3/10], Blank]];
             mask_step = \<lparr> modification = ''mask'', current_epoch = 1, current_metric = ''confidence'',
                           current_threshold = 8/10, current_direction = ''right'', current_id = ''3'' \<rparr>;
             relabel_step = \<lparr> modification = ''relabel'', current_epoch = 2, current_metric = ''confidence'',
                           current_threshold = 5/10, current_direction = ''left'', current_id = ''4'' \<rparr>
         in new_tags (run_steps g ''ner'' logs [mask_step] dataset) = [[''S-MASK'']]
          \<and> new_tags (run_steps g ''ner'' logs [mask_step, relabel_step] dataset) = [[''S-LOC'']]
          \<and> reported (run_steps g ''ner'' logs [mask_step, relabel_step] dataset) = Some [(1, 0), (1, 0)]"
proof -
  let ?t0 = "\<lparr> token_text = ''Paris'', labels = [''ner_new_bio'' \<mapsto> ''S-PER''],
                                      metric_values = Map.empty \<rparr>"
  let ?s0 = "\<lparr> tokens = [?t0], span_labels = [] \<rparr>"
  let ?logs = "[1 \<mapsto> [Row 0 0 ''S-PER'' ''S-PER'' [''confidence'' \<mapsto> 9/10], Blank],
                     2 \<mapsto> [Row 0 0 ''S-LOC'' ''S-PER'' [''confidence'' \<mapsto> 3/10], Blank]]"
  let ?m = "\<lparr> modification = ''mask'', current_epoch = 1, current_metric = ''confidence'',
                           current_threshold = 8/10, current_direction = ''right'', current_id = ''3'' \<rparr>"
  let ?r = "\<lparr> modification = ''relabel'', current_epoch = 2, current_metric = ''confidence'',
                           current_threshold = 5/10, current_direction = ''left'', current_id = ''4'' \<rparr>"
  let ?am = "\<lparr> tag_column = ''ner'', new_tag_column = ''ner_new'',
                          prediction_bio_column = ''predicted_bio'', metric = ''confidence'',
                          threshold = 8/10, direction = ''right'',
                          category_id = ''3'' \<rparr>"
  let ?ar = "\<lparr> tag_column = ''ner'', new_tag_column = ''ner_new'',
                          prediction_bio_column = ''predicted_bio'', metric = ''confidence'',
                          threshold = 5/10, direction = ''left'',
                          category_id = ''4'' \<rparr>"
  let ?t1 = "set_metric (set_label (set_label ?t0 ''predicted_bio'' ''S-PER'') ''ner_bio'' ''S-PER'') ''confidence'' (9/10)"
  let ?s1 = "?s0\<lparr>tokens := [?t1]\<rparr>"
  have u1: "update_dataset_with_epoch_log_info [Row 0 0 ''S-PER'' ''S-PER'' [''confidence'' \<mapsto> 9/10], Blank]
              None [?s0] ''confidence'' ''predicted_bio'' ''ner_bio'' = Inr [?s1]"
    by (simp add: Let_def)
  let ?t2 = "set_label ?t1 ''ner_new_bio'' ''S-MASK''"
  have m1: "mask_tokens ?am (tokens ?s1) \<lparr> flag = False, prev = ''O'', previous_changed = False,
               tokens_changed = 0, tokens_changed_additionally = 0 \<rparr>
            = Inr ([?t2], \<lparr> flag = True, prev = ''O'', previous_changed = False,
               tokens_changed = 1, tokens_changed_additionally = 0 \<rparr>)"
    by (simp add: mask_token_def Let_def get_label_def set_label_def set_metric_def get_metric_def
        tag_column_bio_def new_tag_column_bio_def category_condition_def category_conditions_def
        endswith_def passes_threshold_def)
  from mask_sentence_tokens[OF g m1] obtain s2 where
    s2: "mask_sentence g ?am ?s1 0 = Inr (s2, 1)" "tokens s2 = [?t2]" by auto
  have step1: "run_step g ''ner'' ?logs ?m [?s0] = Inr ([s2], 1, 0)"
    using u1 s2(1) by (simp add: run_step_def mask_category_def)
  let ?t3 = "set_metric (set_label (set_label ?t2 ''predicted_bio'' ''S-LOC'') ''ner_bio'' ''S-PER'') ''confidence'' (3/10)"
  let ?s3 = "s2\<lparr>tokens := [?t3]\<rparr>"
  have u2: "update_dataset_with_epoch_log_info [Row 0 0 ''S-LOC'' ''S-PER'' [''confidence'' \<mapsto> 3/10], Blank]
              None [s2] ''confidence'' ''predicted_bio'' ''ner_bio'' = Inr [?s3]"
    using s2(2) by (simp add: Let_def)
  let ?t4 = "set_label ?t3 ''ner_new_bio'' ''S-LOC''"
  have r1: "relabel_tokens ?ar (tokens ?s3) \<lparr> flag = False, prev = ''O'', previous_changed = False,
               tokens_changed = fst (0, 0), tokens_changed_additionally = snd (0::nat, 0::nat) \<rparr>
            = Inr ([?t4], \<lparr> flag = True, prev = ''S-LOC'', previous_changed = True,
               tokens_changed = 1, tokens_changed_additionally = 0 \<rparr>)"
    by (simp add: relabel_token_def Let_def get_label_def set_label_def set_metric_def get_metric_def
        tag_column_bio_def new_tag_column_bio_def category_condition_def category_conditions_def
        endswith_def passes_threshold_def)
  from relabel_sentence_tokens[OF g r1] obtain s4 where
    s4: "relabel_sentence g ?ar ?s3 (0, 0) = Inr (s4, 1, 0)" "tokens s4 = [?t4]" by auto
  have step2: "run_step g ''ner'' ?logs ?r [s2] = Inr ([s4], 1, 0)"
    using u2 s4(1) by (simp add: run_step_def relabel_category_def)
  have a: "new_tags (run_steps g ''ner'' ?logs [?m] [?s0]) = [[''S-MASK'']]"
    using step1 s2(2) by (simp add: new_tags_def get_label_def set_label_def)
  have b: "new_tags (run_steps g ''ner'' ?logs [?m, ?r] [?s0]) = [[''S-LOC'']]"
    using step1 step2 s4(2) by (simp add: new_tags_def get_label_def set_label_def)
  have c: "reported (run_steps g ''ner'' ?logs [?m, ?r] [?s0]) = Some [(1, 0), (1, 0)]"
    using step1 step2 by (simp add: reported_def)
  from a b c show ?thesis by (simp only: Let_def)
qed

theorem masked_token_relabeled_by_later_step_witness:
  "let dataset = [\<lparr> tokens = [\<lparr> token_text = ''Paris'', labels = [''ner_new_bio'' \<mapsto> ''S-PER''],
                                      metric_values = Map.empty \<rparr>],
                           span_labels = [] \<rparr>];
             logs = [1 \<mapsto> [Row 0 0 ''S-PER'' ''S-PER'' [''confidence'' \<mapsto> 9/10], Blank],
                     2 \<mapsto> [Row 0 0 ''S-LOC'' ''S-PER'' [''confidence'' \<mapsto> 3/10], Blank]];
             mask_step = \<lparr> modification = ''mask'', current_epoch = 1, current_metric = ''confidence'',
                           current_threshold = 8/10, current_direction = ''right'', current_id = ''3'' \<rparr>;
             relabel_step = \<lparr> modification = ''relabel'', current_epoch = 2, current_metric = ''confidence'',
                           current_threshold = 5/10, current_direction = ''left'', current_id = ''4'' \<rparr>
         in new_tags (run_steps (\<lambda>tags. []) ''ner'' logs [mask_step] dataset) = [[''S-MASK'']]
          \<and> new_tags (run_steps (\<lambda>tags. []) ''ner'' logs [mask_step, relabel_step] dataset) = [[''S-LOC'']]
          \<and> reported (run_steps (\<lambda>tags. []) ''ner'' logs [mask_step, relabel_step] dataset) = Some [(1, 0), (1, 0)]"
  using masked_token_relabeled_by_later_step[of "\<lambda>tags. []"] by simp

end
